theory Spec2Isabelle
  imports Main "HOL-Library.Word"
begin

section \<open>JavaScript strings\<close>

text \<open>
  A JavaScript string is a sequence of UTF-16 code units. The operations of
  \<^verbatim>\<open>String.prototype\<close> that the program uses are written out on lists of
  16-bit words. ASCII literals of the source are written with \<open>js\<close>; text
  outside ASCII is given by its code units.
\<close>

type_synonym jsstring = "16 word list"

definition js :: "string \<Rightarrow> jsstring" where
  "js s = map (\<lambda>c. of_nat (of_char c)) s"

text \<open>
  \<^verbatim>\<open>trim\<close> removes WhiteSpace and LineTerminator code points (ECMAScript 22.1.3.32):
  TAB, LF, VT, FF, CR, SP, NBSP, the Unicode space separators, LS, PS and the BOM.
\<close>

definition isWhiteSpace :: "16 word \<Rightarrow> bool" where
  "isWhiteSpace c \<longleftrightarrow>
     c \<in> {0x9, 0xA, 0xB, 0xC, 0xD, 0x20, 0xA0, 0x1680, 0x2028, 0x2029, 0x202F, 0x205F, 0x3000, 0xFEFF}
     \<or> (0x2000 \<le> c \<and> c \<le> 0x200A)"

definition trim :: "jsstring \<Rightarrow> jsstring" where
  "trim s = rev (dropWhile isWhiteSpace (rev (dropWhile isWhiteSpace s)))"

definition startsWith :: "jsstring \<Rightarrow> jsstring \<Rightarrow> bool" where
  "startsWith s p \<longleftrightarrow> take (length p) s = p"

definition endsWith :: "jsstring \<Rightarrow> jsstring \<Rightarrow> bool" where
  "endsWith s p \<longleftrightarrow> length p \<le> length s \<and> drop (length s - length p) s = p"

text \<open>
  \<^verbatim>\<open>s.substring(a, b)\<close>: both indices are clamped to the length and swapped when
  \<open>a > b\<close>; \<^verbatim>\<open>s.substring(a)\<close> runs to the end.
\<close>

definition substring :: "jsstring \<Rightarrow> nat \<Rightarrow> nat \<Rightarrow> jsstring" where
  "substring s a b =
     (let a' = min a (length s); b' = min b (length s)
      in take (max a' b' - min a' b') (drop (min a' b') s))"

definition substringFrom :: "jsstring \<Rightarrow> nat \<Rightarrow> jsstring" where
  "substringFrom s a = substring s a (length s)"

text \<open>\<^verbatim>\<open>s.split(sep)\<close> for a separator of one code unit.\<close>

fun split :: "16 word \<Rightarrow> jsstring \<Rightarrow> jsstring list" where
  "split sep [] = [Nil]"
| "split sep (c # cs) =
     (if c = sep then [] # split sep cs
      else (c # hd (split sep cs)) # tl (split sep cs))"

text \<open>A value thrown by a call: an \<^verbatim>\<open>Error\<close> with its message, or anything else.\<close>

datatype thrown = ErrorObj jsstring | NonError

text \<open>
  Calling a method on \<^verbatim>\<open>undefined\<close> throws a \<^verbatim>\<open>TypeError\<close>, which is an \<^verbatim>\<open>Error\<close>. Its
  message is the engine's; the wording of V8 is taken here, and no property below depends
  on the wording.
\<close>

definition undefinedRead :: "string \<Rightarrow> thrown" where
  "undefinedRead method =
     ErrorObj (js ''Cannot read properties of undefined (reading '' @ [0x27] @ js method
               @ [0x27] @ js '')'')"

text \<open>A template literal renders \<^verbatim>\<open>undefined\<close> as the word.\<close>

definition interpolate :: "jsstring option \<Rightarrow> jsstring" where
  "interpolate v = (case v of Some s \<Rightarrow> s | None \<Rightarrow> js ''undefined'')"

section \<open>constants.ts: the preferred model\<close>

definition AVAILABLE_MODELS :: "jsstring list" where
  "AVAILABLE_MODELS = [js ''gemini-2.5-flash'', js ''gemini-2.5-pro'', js ''gemini-3-pro-preview'']"

text \<open>
  \<^verbatim>\<open>localStorage.getItem('preferredAiModel')\<close> either throws (storage not
  readable), or returns \<^verbatim>\<open>null\<close> (nothing saved) or the saved string.
  \<open>getInitialModel\<close> takes that outcome.
\<close>

definition getInitialModel :: "thrown + jsstring option \<Rightarrow> jsstring" where
  "getInitialModel getItem =
     (case getItem of
        Inr (Some savedModel) \<Rightarrow>
          if savedModel \<noteq> [] \<and> savedModel \<in> set AVAILABLE_MODELS then savedModel
          else js ''gemini-2.5-flash''
      | Inr None \<Rightarrow> js ''gemini-2.5-flash''
      | Inl error \<Rightarrow> js ''gemini-2.5-flash'')"

section \<open>services/geminiService.ts\<close>

subsection \<open>The external text-generation service\<close>

text \<open>
  A \<^verbatim>\<open>File\<close> of the browser: its media type and what a \<^verbatim>\<open>FileReader\<close> holds in
  \<^verbatim>\<open>reader.result\<close> after \<^verbatim>\<open>readAsDataURL\<close> (the data URL, or no string when the
  read failed).
\<close>

record File =
  file_type :: jsstring
  file_dataURL :: "jsstring option"

record FileContent =
  mimeType :: jsstring
  inline_data :: "jsstring option"

text \<open>
  Every prompt is a fixed template with holes. A prompt is represented by its template
  and the values interpolated into it, in the order they occur in the template.
\<close>

datatype prompt =
    SearchPrompt jsstring
  | GradePrompt jsstring jsstring jsstring jsstring
  | FormatPrompt jsstring jsstring jsstring jsstring

record request =
  req_model :: jsstring
  req_prompt :: prompt
  req_inlineData :: "FileContent list"
  req_googleSearch :: bool

text \<open>
  What the program reads of a response: \<^verbatim>\<open>response.text\<close>, which is \<^verbatim>\<open>undefined\<close> when
  the answer has no text part, and
  \<^verbatim>\<open>response.candidates?.[0]?.groundingMetadata?.groundingChunks\<close> (absent when any
  link of the chain is) with \<^verbatim>\<open>chunk.web?.uri\<close> of each chunk.
\<close>

record groundingChunk =
  web_uri :: "jsstring option"

record response =
  resp_text :: "jsstring option"
  groundingChunks :: "groundingChunk list option"

text \<open>
  The service is any function of the request and of its own state \<open>'w\<close>: it throws or
  answers, and moves to a next state. \<open>generateContent\<close> is one round trip; every
  client operation returns its outcome, the service's next state and the requests it sent.
\<close>

type_synonym 'w service = "request \<Rightarrow> 'w \<Rightarrow> (thrown + response) \<times> 'w"

definition generateContent ::
  "'w service \<Rightarrow> request \<Rightarrow> 'w \<Rightarrow> (thrown + response) \<times> 'w \<times> request list" where
  "generateContent ai req w = (case ai req w of (out, w') \<Rightarrow> (out, w', [req]))"

subsection \<open>fileToGenerativePart\<close>

definition at_index :: "'a list \<Rightarrow> nat \<Rightarrow> 'a option" where
  "at_index xs i = (if i < length xs then Some (xs ! i) else None)"

definition fileToGenerativePart :: "File \<Rightarrow> FileContent" where
  "fileToGenerativePart file =
     \<lparr>mimeType = file_type file,
      inline_data = (case file_dataURL file of
                       Some result \<Rightarrow> at_index (split 0x2C result) 1
                     | None \<Rightarrow> Some [])\<rparr>"

subsection \<open>searchScoringCriteria\<close>

text \<open>\<^verbatim>\<open>[...new Set(urls)]\<close>: a Set keeps its elements in insertion order.\<close>

definition setAdd :: "'a \<Rightarrow> 'a list \<Rightarrow> 'a list" where
  "setAdd x s = (if x \<in> set s then s else s @ [x])"

definition newSet :: "'a list \<Rightarrow> 'a list" where
  "newSet xs = fold setAdd xs []"

text \<open>The heading \<^verbatim>\<open>'\n\n---\n**...:**\n'\<close>; its Korean words mean "reference material".\<close>

definition references_heading :: jsstring where
  "references_heading =
     [0xA, 0xA, 0x2D, 0x2D, 0x2D, 0xA, 0x2A, 0x2A, 0xCC38, 0xACE0, 0x20, 0xC790, 0xB8CC,
      0x3A, 0x2A, 0x2A, 0xA]"

definition reference_line :: "jsstring \<Rightarrow> jsstring" where
  "reference_line url = js ''- '' @ url @ [0xA]"

definition truthy_uri :: "groundingChunk \<Rightarrow> jsstring option" where
  "truthy_uri chunk =
     (case web_uri chunk of Some uri \<Rightarrow> if uri \<noteq> [] then Some uri else None | None \<Rightarrow> None)"

definition references_of :: "response \<Rightarrow> jsstring" where
  "references_of response =
     (case groundingChunks response of
        None \<Rightarrow> []
      | Some chunks \<Rightarrow>
          if length chunks > 0 then
            (let urls = List.map_filter truthy_uri chunks;
                 uniqueUrls = newSet urls
             in if length uniqueUrls > 0
                then fold (\<lambda>url references. references @ reference_line url) uniqueUrls
                       references_heading
                else [])
          else [])"

definition searchScoringCriteria ::
  "'w service \<Rightarrow> jsstring \<Rightarrow> jsstring \<Rightarrow> 'w \<Rightarrow> (thrown + jsstring) \<times> 'w \<times> request list" where
  "searchScoringCriteria ai examInfo model w =
     (case generateContent ai
             \<lparr>req_model = model, req_prompt = SearchPrompt examInfo, req_inlineData = [],
              req_googleSearch = True\<rparr> w of
        (Inl e, w', sent) \<Rightarrow> (Inl e, w', sent)
      | (Inr response, w', sent) \<Rightarrow>
          (case resp_text response of
             None \<Rightarrow> (Inl (undefinedRead ''trim''), w', sent)
           | Some text \<Rightarrow> (Inr (trim text @ references_of response), w', sent)))"

subsection \<open>gradeSolutionAndGenerateFeedback\<close>

record CommonData =
  cd_examInfo :: jsstring
  cd_scoringCriteria :: jsstring
  cd_model :: jsstring
  cd_examMaterials :: "File list"

record StudentInput =
  st_name :: jsstring
  st_solutionFiles :: "File list"
  st_reportTemplate :: jsstring

text \<open>The message of the thrown Error: "exam materials and student solution files are required".\<close>

definition required_files_message :: jsstring where
  "required_files_message =
     [0xC2DC, 0xD5D8, 0x20, 0xC790, 0xB8CC, 0xC640, 0x20, 0xD559, 0xC0DD, 0x20, 0xD480, 0xC774,
      0x20, 0xD30C, 0xC77C, 0xC740, 0x20, 0xD544, 0xC218, 0xC785, 0xB2C8, 0xB2E4, 0x2E]"

definition gradeSolutionAndGenerateFeedback ::
  "'w service \<Rightarrow> CommonData \<Rightarrow> StudentInput \<Rightarrow> 'w
     \<Rightarrow> (thrown + jsstring option) \<times> 'w \<times> request list" where
  "gradeSolutionAndGenerateFeedback ai commonData studentData w =
     (if length (cd_examMaterials commonData) = 0 \<or> length (st_solutionFiles studentData) = 0
      then (Inl (ErrorObj required_files_message), w, [])
      else
        (let examMaterialsParts = map fileToGenerativePart (cd_examMaterials commonData);
             studentSolutionParts = map fileToGenerativePart (st_solutionFiles studentData);
             studentSpecificInstructions =
               (if st_reportTemplate studentData \<noteq> []
                then [0xA] @ js ''    - Student-Specific Instructions:'' @ [0xA] @ js ''    ''
                     @ st_reportTemplate studentData @ [0xA] @ js ''    ''
                else [])
         in case generateContent ai
                   \<lparr>req_model = cd_model commonData,
                    req_prompt = GradePrompt (st_name studentData) (cd_examInfo commonData)
                                   (cd_scoringCriteria commonData) studentSpecificInstructions,
                    req_inlineData = examMaterialsParts @ studentSolutionParts,
                    req_googleSearch = False\<rparr> w of
              (Inl e, w', sent) \<Rightarrow> (Inl e, w', sent)
            | (Inr response, w', sent) \<Rightarrow> (Inr (resp_text response), w', sent)))"

subsection \<open>formatReportToHtml\<close>

record FormatCommonData =
  fmt_examInfo :: jsstring
  fmt_model :: jsstring

definition stripFences :: "jsstring \<Rightarrow> jsstring" where
  "stripFences text =
     (let html = text;
          html = (if startsWith html (js ''```html'') then substringFrom html 7 else html);
          html = (if endsWith html (js ''```'') then substring html 0 (length html - 3) else html)
      in trim html)"

definition formatReportToHtml ::
  "'w service \<Rightarrow> jsstring option \<Rightarrow> FormatCommonData \<Rightarrow> jsstring \<Rightarrow> jsstring \<Rightarrow> 'w
     \<Rightarrow> (thrown + jsstring) \<times> 'w \<times> request list" where
  "formatReportToHtml ai rawReport commonData studentName generationDate w =
     (case generateContent ai
             \<lparr>req_model = fmt_model commonData,
              req_prompt = FormatPrompt generationDate studentName (fmt_examInfo commonData)
                             (interpolate rawReport),
              req_inlineData = [], req_googleSearch = False\<rparr> w of
        (Inl e, w', sent) \<Rightarrow> (Inl e, w', sent)
      | (Inr response, w', sent) \<Rightarrow>
          (case resp_text response of
             None \<Rightarrow> (Inl (undefinedRead ''startsWith''), w', sent)
           | Some text \<Rightarrow> (Inr (stripFences text), w', sent)))"

section \<open>App.tsx: the batch loop of handleGenerateReport\<close>

subsection \<open>types.ts and the component's state\<close>

record StudentData =
  sd_id :: jsstring
  sd_name :: jsstring
  sd_email :: jsstring
  sd_solutionFiles :: "File list"
  sd_reportTemplate :: jsstring

record FormData =
  examInfo :: jsstring
  scoringCriteria :: jsstring
  examMaterials :: "File list"
  students :: "StudentData list"
  model :: jsstring

record ReportData =
  rd_htmlContent :: jsstring
  rd_studentEmail :: jsstring
  rd_studentName :: jsstring
  rd_examInfo :: jsstring
  rd_generationDate :: jsstring

datatype status = Loading | Done | Error

record ReportResult =
  status :: status
  data :: "ReportData option"
  error :: "jsstring option"
  studentName :: jsstring
  studentId :: jsstring
  progressMessage :: "jsstring option"

record Progress =
  current :: nat
  total :: nat

text \<open>The four \<^verbatim>\<open>useState\<close> cells that the handler writes.\<close>

record AppState =
  results :: "ReportResult list"
  isLoading :: bool
  progress :: Progress
  app_error :: "jsstring option"

text \<open>
  A run of the handler is observed through its effects, in the order they happen: every
  call of a state setter with the component state it leaves, every read of the clock,
  every call of a client operation with its outcome and every request sent to the
  service. Events of the loop body carry the loop index \<open>i\<close> they happen in.
\<close>

datatype setter = SetIsLoading | SetError | SetProgress | SetResults

datatype event =
    Update setter AppState
  | Stamp nat jsstring
  | Grade nat
  | GradeOut nat "thrown + jsstring option"
  | Format nat
  | FormatOut nat "thrown + jsstring"
  | Sent nat request

record 'w run =
  state :: AppState
  world :: 'w
  log :: "event list"

text \<open>\<^verbatim>\<open>new Date().toLocaleString('ko-KR')\<close>: the clock is part of the outside world.\<close>

type_synonym 'w clock = "'w \<Rightarrow> jsstring \<times> 'w"

definition setIsLoading :: "bool \<Rightarrow> 'w run \<Rightarrow> 'w run" where
  "setIsLoading b r =
     (let s = (state r)\<lparr>isLoading := b\<rparr> in r\<lparr>state := s, log := log r @ [Update SetIsLoading s]\<rparr>)"

definition setError :: "jsstring option \<Rightarrow> 'w run \<Rightarrow> 'w run" where
  "setError e r =
     (let s = (state r)\<lparr>app_error := e\<rparr> in r\<lparr>state := s, log := log r @ [Update SetError s]\<rparr>)"

definition setProgress :: "(Progress \<Rightarrow> Progress) \<Rightarrow> 'w run \<Rightarrow> 'w run" where
  "setProgress f r =
     (let s = (state r)\<lparr>progress := f (progress (state r))\<rparr>
      in r\<lparr>state := s, log := log r @ [Update SetProgress s]\<rparr>)"

definition setResults :: "(ReportResult list \<Rightarrow> ReportResult list) \<Rightarrow> 'w run \<Rightarrow> 'w run" where
  "setResults f r =
     (let s = (state r)\<lparr>results := f (results (state r))\<rparr>
      in r\<lparr>state := s, log := log r @ [Update SetResults s]\<rparr>)"

subsection \<open>The messages\<close>

text \<open>"waiting...", "AI is analysing the answer...", "generating the report..." and
  "an unknown error occurred.", as the code units of the Korean literals.\<close>

definition waiting_message :: jsstring where
  "waiting_message = [0xB300, 0xAE30, 0x20, 0xC911, 0x2E, 0x2E, 0x2E]"

definition analyzing_message :: jsstring where
  "analyzing_message =
     [0x41, 0x49, 0xAC00, 0x20, 0xB2F5, 0xC548, 0x20, 0xBD84, 0xC11D, 0x20, 0xC911, 0x2E, 0x2E, 0x2E]"

definition formatting_message :: jsstring where
  "formatting_message =
     [0xBCF4, 0xACE0, 0xC11C, 0x20, 0xC0DD, 0xC131, 0x20, 0xC911, 0x2E, 0x2E, 0x2E]"

definition unknown_error_message :: jsstring where
  "unknown_error_message =
     [0xC54C, 0x20, 0xC218, 0x20, 0xC5C6, 0xB294, 0x20, 0xC624, 0xB958, 0xAC00, 0x20, 0xBC1C,
      0xC0DD, 0xD588, 0xC2B5, 0xB2C8, 0xB2E4, 0x2E]"

subsection \<open>The updates of the results collection\<close>

text \<open>Line 35: one record per student, in roster order.\<close>

definition initialResult :: "StudentData \<Rightarrow> ReportResult" where
  "initialResult s =
     \<lparr>status = Loading, data = None, error = None, studentName = sd_name s, studentId = sd_id s,
      progressMessage = Some waiting_message\<rparr>"

text \<open>Lines 51 and 59: \<^verbatim>\<open>prev.map(r => r.studentId === student.id ? {...r, progressMessage: m} : r)\<close>.\<close>

definition markProgress :: "jsstring \<Rightarrow> jsstring \<Rightarrow> ReportResult list \<Rightarrow> ReportResult list" where
  "markProgress sid m prev =
     map (\<lambda>r. if studentId r = sid then r\<lparr>progressMessage := Some m\<rparr> else r) prev"

text \<open>Line 81.\<close>

definition markDone :: "jsstring \<Rightarrow> ReportData \<Rightarrow> ReportResult list \<Rightarrow> ReportResult list" where
  "markDone sid reportData prev =
     map (\<lambda>r. if studentId r = sid
              then r\<lparr>status := Done, data := Some reportData, progressMessage := None\<rparr> else r) prev"

text \<open>Line 86.\<close>

definition markError :: "jsstring \<Rightarrow> jsstring \<Rightarrow> ReportResult list \<Rightarrow> ReportResult list" where
  "markError sid message prev =
     map (\<lambda>r. if studentId r = sid
              then r\<lparr>status := Error, error := Some message, progressMessage := None\<rparr> else r) prev"

subsection \<open>One iteration of the loop\<close>

text \<open>Line 85: \<^verbatim>\<open>e instanceof Error ? e.message : '...'\<close>.\<close>

definition message_of :: "thrown \<Rightarrow> jsstring" where
  "message_of e = (case e of ErrorObj m \<Rightarrow> m | NonError \<Rightarrow> unknown_error_message)"

text \<open>Lines 83 to 87, the catch block (the \<^verbatim>\<open>console.error\<close> is not modelled).\<close>

definition catchBlock :: "StudentData \<Rightarrow> thrown \<Rightarrow> 'w run \<Rightarrow> 'w run" where
  "catchBlock student e r =
     (let message = message_of e in setResults (markError (sd_id student) message) r)"

text \<open>Line 49.\<close>

definition readClock :: "'w clock \<Rightarrow> nat \<Rightarrow> 'w run \<Rightarrow> jsstring \<times> 'w run" where
  "readClock clk i r =
     (case clk (world r) of
        (generationDate, w) \<Rightarrow> (generationDate, r\<lparr>world := w, log := log r @ [Stamp i generationDate]\<rparr>))"

text \<open>Lines 53 to 57.\<close>

definition callGrade ::
  "'w service \<Rightarrow> CommonData \<Rightarrow> nat \<Rightarrow> StudentData \<Rightarrow> 'w run
     \<Rightarrow> (thrown + jsstring option) \<times> 'w run" where
  "callGrade ai commonData i student r =
     (case gradeSolutionAndGenerateFeedback ai commonData
             \<lparr>st_name = sd_name student, st_solutionFiles = sd_solutionFiles student,
              st_reportTemplate = sd_reportTemplate student\<rparr> (world r) of
        (out, w, sent) \<Rightarrow>
          (out, r\<lparr>world := w, log := log r @ Grade i # map (Sent i) sent @ [GradeOut i out]\<rparr>))"

text \<open>Lines 62 to 70.\<close>

definition callFormat ::
  "'w service \<Rightarrow> CommonData \<Rightarrow> nat \<Rightarrow> StudentData \<Rightarrow> jsstring option \<Rightarrow> jsstring \<Rightarrow> 'w run
     \<Rightarrow> (thrown + jsstring) \<times> 'w run" where
  "callFormat ai commonData i student rawReport generationDate r =
     (case formatReportToHtml ai rawReport
             \<lparr>fmt_examInfo = cd_examInfo commonData, fmt_model = cd_model commonData\<rparr>
             (sd_name student) generationDate (world r) of
        (out, w, sent) \<Rightarrow>
          (out, r\<lparr>world := w, log := log r @ Format i # map (Sent i) sent @ [FormatOut i out]\<rparr>))"

text \<open>Lines 45 to 87, the body of the loop for index \<open>i\<close> and \<open>student = studentsToProcess[i]\<close>.\<close>

definition processStudent ::
  "'w service \<Rightarrow> 'w clock \<Rightarrow> CommonData \<Rightarrow> nat \<Rightarrow> StudentData \<Rightarrow> 'w run \<Rightarrow> 'w run" where
  "processStudent ai clk commonData i student r0 =
     (let r1 = setProgress (\<lambda>prev. prev\<lparr>current := i + 1\<rparr>) r0 in
      (case readClock clk i r1 of (generationDate, r2) \<Rightarrow>
        (let r3 = setResults (markProgress (sd_id student) analyzing_message) r2 in
         (case callGrade ai commonData i student r3 of
            (Inl e, r4) \<Rightarrow> catchBlock student e r4
          | (Inr rawReport, r4) \<Rightarrow>
              (let r5 = setResults (markProgress (sd_id student) formatting_message) r4 in
               (case callFormat ai commonData i student rawReport generationDate r5 of
                  (Inl e, r6) \<Rightarrow> catchBlock student e r6
                | (Inr htmlReport, r6) \<Rightarrow>
                    (let reportData =
                           \<lparr>rd_htmlContent = htmlReport, rd_studentEmail = sd_email student,
                            rd_studentName = sd_name student,
                            rd_examInfo = cd_examInfo commonData,
                            rd_generationDate = generationDate\<rparr>
                     in setResults (markDone (sd_id student) reportData) r6)))))))"

subsection \<open>The loop and the handler\<close>

function batchLoop ::
  "'w service \<Rightarrow> 'w clock \<Rightarrow> CommonData \<Rightarrow> StudentData list \<Rightarrow> nat \<Rightarrow> 'w run \<Rightarrow> 'w run" where
  "batchLoop ai clk commonData studentsToProcess i r =
     (if i < length studentsToProcess
      then batchLoop ai clk commonData studentsToProcess (i + 1)
             (processStudent ai clk commonData i (studentsToProcess ! i) r)
      else r)"
  by pat_completeness auto
termination
  by (relation "measure (\<lambda>(ai, clk, commonData, studentsToProcess, i, r). length studentsToProcess - i)")
    auto

declare batchLoop.simps [simp del]

text \<open>
  Lines 30 to 91. The handler starts from the component state \<open>s0\<close> left by whatever
  ran before and from the state \<open>w0\<close> of the outside world; its log starts empty.
\<close>

definition handleGenerateReport ::
  "'w service \<Rightarrow> 'w clock \<Rightarrow> FormData \<Rightarrow> AppState \<Rightarrow> 'w \<Rightarrow> 'w run" where
  "handleGenerateReport ai clk formData s0 w0 =
     (let r = \<lparr>state = s0, world = w0, log = []\<rparr>;
          r = setIsLoading True r;
          r = setError None r;
          studentsToProcess = students formData;
          r = setProgress (\<lambda>_. \<lparr>current = 0, total = length studentsToProcess\<rparr>) r;
          r = setResults (\<lambda>_. map initialResult studentsToProcess) r;
          commonData = \<lparr>cd_examInfo = examInfo formData, cd_scoringCriteria = scoringCriteria formData,
                        cd_model = model formData, cd_examMaterials = examMaterials formData\<rparr>;
          r = batchLoop ai clk commonData studentsToProcess 0 r
      in setIsLoading False r)"

section \<open>Notions used to state the properties\<close>

text \<open>
  "Each unique source exactly once, in first-seen order", following the words of the
  specification: the first element, then the rest without it, in the same way.
\<close>

fun first_seen_order :: "'a list \<Rightarrow> 'a list" where
  "first_seen_order [] = []"
| "first_seen_order (x # xs) = x # first_seen_order (filter (\<lambda>y. y \<noteq> x) xs)"

text \<open>
  The source references a response carries: the URIs of its chunks, in the order of the
  chunks, a chunk without a URI or with an empty one giving none.
\<close>

definition uri_of_chunk :: "groundingChunk \<Rightarrow> jsstring list" where
  "uri_of_chunk chunk = (case web_uri chunk of None \<Rightarrow> [] | Some uri \<Rightarrow> if uri = [] then [] else [uri])"

definition source_uris :: "response \<Rightarrow> jsstring list" where
  "source_uris response =
     (case groundingChunks response of None \<Rightarrow> [] | Some chunks \<Rightarrow> concat (map uri_of_chunk chunks))"

subsection \<open>The loop, iteration by iteration\<close>

text \<open>
  The run after the first \<open>k\<close> iterations of the loop, the outcome of the two client
  calls of an iteration started in the run \<open>r\<close>, and the results collection and the events
  that the iteration produces. They are shown below to describe \<open>processStudent\<close> and
  \<open>batchLoop\<close>; the properties are stated on \<open>handleGenerateReport\<close>.
\<close>

primrec iter ::
  "'w service \<Rightarrow> 'w clock \<Rightarrow> CommonData \<Rightarrow> StudentData list \<Rightarrow> nat \<Rightarrow> 'w run \<Rightarrow> 'w run" where
  "iter ai clk commonData sts 0 r = r"
| "iter ai clk commonData sts (Suc k) r =
     processStudent ai clk commonData k (sts ! k) (iter ai clk commonData sts k r)"

definition commonDataOf :: "FormData \<Rightarrow> CommonData" where
  "commonDataOf formData =
     \<lparr>cd_examInfo = examInfo formData, cd_scoringCriteria = scoringCriteria formData,
      cd_model = model formData, cd_examMaterials = examMaterials formData\<rparr>"

definition startState :: "FormData \<Rightarrow> AppState \<Rightarrow> AppState" where
  "startState formData s0 =
     s0\<lparr>isLoading := True, app_error := None,
        progress := \<lparr>current = 0, total = length (students formData)\<rparr>,
        results := map initialResult (students formData)\<rparr>"

definition startRun :: "FormData \<Rightarrow> AppState \<Rightarrow> 'w \<Rightarrow> 'w run" where
  "startRun formData s0 w0 =
     \<lparr>state = startState formData s0, world = w0,
      log = [Update SetIsLoading (s0\<lparr>isLoading := True\<rparr>),
             Update SetError (s0\<lparr>isLoading := True, app_error := None\<rparr>),
             Update SetProgress
               (s0\<lparr>isLoading := True, app_error := None,
                   progress := \<lparr>current = 0, total = length (students formData)\<rparr>\<rparr>),
             Update SetResults (startState formData s0)]\<rparr>"

definition gradeOutcome ::
  "'w service \<Rightarrow> 'w clock \<Rightarrow> CommonData \<Rightarrow> StudentData \<Rightarrow> 'w run
     \<Rightarrow> (thrown + jsstring option) \<times> 'w \<times> request list" where
  "gradeOutcome ai clk commonData student r =
     gradeSolutionAndGenerateFeedback ai commonData
       \<lparr>st_name = sd_name student, st_solutionFiles = sd_solutionFiles student,
        st_reportTemplate = sd_reportTemplate student\<rparr> (snd (clk (world r)))"

definition formatOutcome ::
  "'w service \<Rightarrow> 'w clock \<Rightarrow> CommonData \<Rightarrow> StudentData \<Rightarrow> jsstring option \<Rightarrow> 'w run
     \<Rightarrow> (thrown + jsstring) \<times> 'w \<times> request list" where
  "formatOutcome ai clk commonData student rawReport r =
     formatReportToHtml ai rawReport
       \<lparr>fmt_examInfo = cd_examInfo commonData, fmt_model = cd_model commonData\<rparr>
       (sd_name student) (fst (clk (world r)))
       (fst (snd (gradeOutcome ai clk commonData student r)))"

definition reportDataOf :: "CommonData \<Rightarrow> StudentData \<Rightarrow> jsstring \<Rightarrow> jsstring \<Rightarrow> ReportData" where
  "reportDataOf commonData student htmlReport date =
     \<lparr>rd_htmlContent = htmlReport, rd_studentEmail = sd_email student,
      rd_studentName = sd_name student, rd_examInfo = cd_examInfo commonData,
      rd_generationDate = date\<rparr>"

definition resultsAfter ::
  "'w service \<Rightarrow> 'w clock \<Rightarrow> CommonData \<Rightarrow> StudentData \<Rightarrow> 'w run \<Rightarrow> ReportResult list" where
  "resultsAfter ai clk commonData student r =
     (let sid = sd_id student;
          a = markProgress sid analyzing_message (results (state r))
      in case fst (gradeOutcome ai clk commonData student r) of
           Inl e \<Rightarrow> markError sid (message_of e) a
         | Inr rawReport \<Rightarrow>
             (let f = markProgress sid formatting_message a
              in case fst (formatOutcome ai clk commonData student rawReport r) of
                   Inl e \<Rightarrow> markError sid (message_of e) f
                 | Inr htmlReport \<Rightarrow>
                     markDone sid (reportDataOf commonData student htmlReport (fst (clk (world r)))) f))"

definition withResults :: "'w run \<Rightarrow> nat \<Rightarrow> ReportResult list \<Rightarrow> AppState" where
  "withResults r i rs =
     (state r)\<lparr>progress := (progress (state r))\<lparr>current := i + 1\<rparr>, results := rs\<rparr>"

definition newEvents ::
  "'w service \<Rightarrow> 'w clock \<Rightarrow> CommonData \<Rightarrow> nat \<Rightarrow> StudentData \<Rightarrow> 'w run \<Rightarrow> event list" where
  "newEvents ai clk commonData i student r =
     (let sid = sd_id student;
          date = fst (clk (world r));
          a = markProgress sid analyzing_message (results (state r));
          g = gradeOutcome ai clk commonData student r
      in [Update SetProgress (withResults r i (results (state r))), Stamp i date,
          Update SetResults (withResults r i a), Grade i]
         @ map (Sent i) (snd (snd g)) @ [GradeOut i (fst g)]
         @ (case fst g of
              Inl e \<Rightarrow> [Update SetResults (withResults r i (markError sid (message_of e) a))]
            | Inr rawReport \<Rightarrow>
                (let f = markProgress sid formatting_message a;
                     h = formatOutcome ai clk commonData student rawReport r
                 in [Update SetResults (withResults r i f), Format i]
                    @ map (Sent i) (snd (snd h)) @ [FormatOut i (fst h)]
                    @ [Update SetResults
                         (withResults r i (resultsAfter ai clk commonData student r))])))"

text \<open>The loop index an event belongs to.\<close>

fun tag :: "event \<Rightarrow> nat option" where
  "tag (Update st s) = None"
| "tag (Stamp i d) = Some i"
| "tag (Grade i) = Some i"
| "tag (GradeOut i out) = Some i"
| "tag (Format i) = Some i"
| "tag (FormatOut i out) = Some i"
| "tag (Sent i req) = Some i"

text \<open>The values written to the progress cell, in the order of the writes.\<close>

fun progressOf :: "event \<Rightarrow> Progress option" where
  "progressOf (Update SetProgress s) = Some (progress s)"
| "progressOf e = None"

definition progressValues :: "event list \<Rightarrow> Progress list" where
  "progressValues es = List.map_filter progressOf es"

text \<open>The readings of the clock taken in iteration \<open>k\<close>, in order.\<close>

fun stampOf :: "nat \<Rightarrow> event \<Rightarrow> jsstring option" where
  "stampOf k (Stamp i d) = (if i = k then Some d else None)"
| "stampOf k e = None"

definition clockReadings :: "nat \<Rightarrow> event list \<Rightarrow> jsstring list" where
  "clockReadings k es = List.map_filter (stampOf k) es"

text \<open>A record is terminal: done or error, with no progress note left.\<close>

definition terminal :: "ReportResult \<Rightarrow> bool" where
  "terminal r \<longleftrightarrow> (status r = Done \<or> status r = Error) \<and> progressMessage r = None"

text \<open>
  The state machine of the specification: the five states, read off a record (a loading
  record is pending, analysing or formatting by its progress note), and its arrows.
\<close>

datatype phase = Pending | Analyzing | Formatting | Completed | Failed

definition phase_of :: "ReportResult \<Rightarrow> phase option" where
  "phase_of r =
     (case status r of
        Done \<Rightarrow> Some Completed
      | Error \<Rightarrow> Some Failed
      | Loading \<Rightarrow>
          if progressMessage r = Some waiting_message then Some Pending
          else if progressMessage r = Some analyzing_message then Some Analyzing
          else if progressMessage r = Some formatting_message then Some Formatting
          else None)"

fun forward :: "phase \<Rightarrow> phase \<Rightarrow> bool" where
  "forward Pending Analyzing = True"
| "forward Analyzing Formatting = True"
| "forward Formatting Completed = True"
| "forward Pending Failed = True"
| "forward Analyzing Failed = True"
| "forward Formatting Failed = True"
| "forward p q = False"

text \<open>A record stays as it is or follows an arrow.\<close>

definition record_step :: "ReportResult \<Rightarrow> ReportResult \<Rightarrow> bool" where
  "record_step a b \<longleftrightarrow>
     b = a \<or> (case (phase_of a, phase_of b) of (Some p, Some q) \<Rightarrow> forward p q | _ \<Rightarrow> False)"

text \<open>The values the results collection takes, in the order of the writes.\<close>

fun resultsOf :: "event \<Rightarrow> ReportResult list option" where
  "resultsOf (Update SetResults s) = Some (results s)"
| "resultsOf e = None"

definition snapshots :: "event list \<Rightarrow> ReportResult list list" where
  "snapshots es = List.map_filter resultsOf es"

text \<open>The records from position \<open>m\<close> on are as line 35 created them.\<close>

definition untouchedFrom :: "StudentData list \<Rightarrow> nat \<Rightarrow> ReportResult list \<Rightarrow> bool" where
  "untouchedFrom sts m rs \<longleftrightarrow>
     map studentId rs = map sd_id sts
     \<and> (\<forall>j. m \<le> j \<and> j < length sts \<longrightarrow> rs ! j = initialResult (sts ! j))"

subsection \<open>Concrete services and inputs\<close>

text \<open>A service that answers every request with an empty text and no references.\<close>

definition empty_service :: "unit service" where
  "empty_service req w = (Inr \<lparr>resp_text = Some [], groundingChunks = None\<rparr>, w)"

text \<open>A service whose answer cites \<open>a\<close>, nothing, \<open>b\<close>, \<open>a\<close> again and an empty URI.\<close>

definition cited_response :: response where
  "cited_response =
     \<lparr>resp_text = Some (js '' criteria ''),
      groundingChunks = Some [\<lparr>web_uri = Some (js ''a'')\<rparr>, \<lparr>web_uri = None\<rparr>,
                              \<lparr>web_uri = Some (js ''b'')\<rparr>, \<lparr>web_uri = Some (js ''a'')\<rparr>,
                              \<lparr>web_uri = Some []\<rparr>]\<rparr>"

definition cited_service :: "unit service" where
  "cited_service req w = (Inr cited_response, w)"

text \<open>A service that is down.\<close>

definition down_service :: "unit service" where
  "down_service req w = (Inl (ErrorObj (js ''network down'')), w)"

text \<open>A service whose answer has no text part.\<close>

definition textless_service :: "unit service" where
  "textless_service req w = (Inr \<lparr>resp_text = None, groundingChunks = None\<rparr>, w)"

text \<open>A service whose answer cites \<open>a\<close> and has no text part.\<close>

definition textless_cited_response :: response where
  "textless_cited_response =
     \<lparr>resp_text = None, groundingChunks = Some [\<lparr>web_uri = Some (js ''a'')\<rparr>]\<rparr>"

definition textless_cited_service :: "unit service" where
  "textless_cited_service req w = (Inr textless_cited_response, w)"

text \<open>A service whose answer is two blanks and a newline.\<close>

definition blank_service :: "unit service" where
  "blank_service req w = (Inr \<lparr>resp_text = Some [0x20, 0x20, 0xA], groundingChunks = None\<rparr>, w)"

text \<open>A service that wraps its HTML in a code fence and ends its answer with a newline.\<close>

definition fenced_text :: jsstring where
  "fenced_text = js ''```html'' @ [0xA] @ js ''<p>ok</p>'' @ [0xA] @ js ''```'' @ [0xA]"

definition fenced_service :: "unit service" where
  "fenced_service req w = (Inr \<lparr>resp_text = Some fenced_text, groundingChunks = None\<rparr>, w)"

text \<open>
  A service that answers every request with the text \<open>report\<close> and counts its calls, and
  a clock that shows the number of calls so far as a tally after the letter \<open>t\<close>.
\<close>

definition counting_service :: "nat service" where
  "counting_service req w = (Inr \<lparr>resp_text = Some (js ''report''), groundingChunks = None\<rparr>, Suc w)"

definition tally_clock :: "nat clock" where
  "tally_clock w = (js ''t'' @ replicate w 0x49, w)"

definition one_file :: File where
  "one_file = \<lparr>file_type = js ''image/png'', file_dataURL = Some (js ''data:image/png;base64,AA'')\<rparr>"

text \<open>Student A has a solution document, student B has none.\<close>

definition student_A :: StudentData where
  "student_A = \<lparr>sd_id = js ''a'', sd_name = js ''A'', sd_email = js ''a@x'',
                 sd_solutionFiles = [one_file], sd_reportTemplate = []\<rparr>"

definition student_B :: StudentData where
  "student_B = \<lparr>sd_id = js ''b'', sd_name = js ''B'', sd_email = js ''b@x'',
                 sd_solutionFiles = [], sd_reportTemplate = []\<rparr>"

definition form_AB :: FormData where
  "form_AB = \<lparr>examInfo = js ''exam'', scoringCriteria = js ''criteria'', examMaterials = [one_file],
               students = [student_A, student_B], model = js ''gemini-2.5-flash''\<rparr>"

definition idle_state :: AppState where
  "idle_state = \<lparr>results = [], isLoading = False, progress = \<lparr>current = 0, total = 0\<rparr>,
                  app_error = None\<rparr>"

definition run_AB :: "nat run" where
  "run_AB = handleGenerateReport counting_service tally_clock form_AB idle_state 0"





text \<open>A roster of one student.\<close>

definition form_A :: FormData where
  "form_A = \<lparr>examInfo = js ''exam'', scoringCriteria = js ''criteria'', examMaterials = [one_file],
              students = [student_A], model = js ''gemini-2.5-flash''\<rparr>"

definition run_A :: "nat run" where
  "run_A = handleGenerateReport counting_service tally_clock form_A idle_state 0"

text \<open>A roster in which two entries carry the same id; the second has no solution document.\<close>

definition student_A2 :: StudentData where
  "student_A2 = \<lparr>sd_id = js ''a'', sd_name = js ''A2'', sd_email = js ''a2@x'',
                  sd_solutionFiles = [], sd_reportTemplate = []\<rparr>"

definition form_dup :: FormData where
  "form_dup = \<lparr>examInfo = js ''exam'', scoringCriteria = js ''criteria'', examMaterials = [one_file],
                students = [student_A, student_A2], model = js ''gemini-2.5-flash''\<rparr>"

definition run_dup :: "nat run" where
  "run_dup = handleGenerateReport counting_service tally_clock form_dup idle_state 0"

text \<open>
  Rosters in which a later entry carries the id of the first one: the entry without a
  solution document first, and two entries with documents.
\<close>

definition form_dup_later :: FormData where
  "form_dup_later =
     \<lparr>examInfo = js ''exam'', scoringCriteria = js ''criteria'', examMaterials = [one_file],
      students = [student_A2, student_A], model = js ''gemini-2.5-flash''\<rparr>"

definition run_dup_later :: "nat run" where
  "run_dup_later = handleGenerateReport counting_service tally_clock form_dup_later idle_state 0"




section \<open>Properties of constants.ts\<close>

lemma AVAILABLE_MODELS_nonempty: "s \<in> set AVAILABLE_MODELS \<Longrightarrow> s \<noteq> []"
  by (auto simp: AVAILABLE_MODELS_def js_def)

lemma default_available: "js ''gemini-2.5-flash'' \<in> set AVAILABLE_MODELS"
  by (simp add: AVAILABLE_MODELS_def)

text \<open>
  Claim C10. Whatever the read of the preferred-model key gives, the initial model is the
  stored value exactly when that value is one of the available models; a value outside the
  list, no value and a failed read all give the default \<^verbatim>\<open>gemini-2.5-flash\<close>; so the
  initial model is always one of the available models.
\<close>

theorem getInitialModel_valid:
  "(getInitialModel (Inr (Some s)) = s \<longleftrightarrow> s \<in> set AVAILABLE_MODELS)
   \<and> (s \<notin> set AVAILABLE_MODELS \<longrightarrow> getInitialModel (Inr (Some s)) = js ''gemini-2.5-flash'')
   \<and> getInitialModel (Inr None) = js ''gemini-2.5-flash''
   \<and> getInitialModel (Inl e) = js ''gemini-2.5-flash''
   \<and> getInitialModel g \<in> set AVAILABLE_MODELS"
proof -
  have a: "getInitialModel (Inr (Some s)) = s \<longleftrightarrow> s \<in> set AVAILABLE_MODELS"
    using AVAILABLE_MODELS_nonempty [of s] default_available
    by (auto simp: getInitialModel_def)
  have b: "getInitialModel g \<in> set AVAILABLE_MODELS"
    using default_available
    by (auto simp: getInitialModel_def split: sum.splits option.splits)
  show ?thesis using a b by (simp add: getInitialModel_def)
qed

theorem getInitialModel_valid_witness:
  "js ''gpt-4'' \<notin> set AVAILABLE_MODELS
   \<and> getInitialModel (Inr (Some (js ''gpt-4''))) = js ''gemini-2.5-flash''
   \<and> getInitialModel (Inr (Some (js ''gemini-2.5-pro''))) = js ''gemini-2.5-pro''"
proof -
  have h: "js ''gpt-4'' \<notin> set AVAILABLE_MODELS"
    by (simp add: AVAILABLE_MODELS_def js_def)
  have p: "js ''gemini-2.5-pro'' \<in> set AVAILABLE_MODELS"
    by (simp add: AVAILABLE_MODELS_def)
  show ?thesis
    using h p getInitialModel_valid [of "js ''gpt-4''" NonError "Inr None"]
      getInitialModel_valid [of "js ''gemini-2.5-pro''" NonError "Inr None"]
    by blast
qed

section \<open>Properties of services/geminiService.ts\<close>

subsection \<open>The set of URLs\<close>

lemma fold_setAdd:
  assumes "distinct acc"
  shows "fold setAdd xs acc = acc @ first_seen_order (filter (\<lambda>y. y \<notin> set acc) xs)"
  using assms
proof (induction xs arbitrary: acc)
  case Nil
  then show ?case by simp
next
  case (Cons x xs)
  show ?case
  proof (cases "x \<in> set acc")
    case True
    then show ?thesis using Cons by (simp add: setAdd_def)
  next
    case False
    have "filter (\<lambda>y. y \<notin> set (acc @ [x])) xs = filter (\<lambda>y. y \<noteq> x) (filter (\<lambda>y. y \<notin> set acc) xs)"
      by (auto intro: filter_cong)
    then show ?thesis using False Cons by (simp add: setAdd_def)
  qed
qed

lemma newSet_first_seen: "newSet xs = first_seen_order xs"
  using fold_setAdd [of "[]" xs] by (simp add: newSet_def)

lemma set_first_seen: "set (first_seen_order xs) = set xs"
  by (induction xs rule: first_seen_order.induct) auto

lemma distinct_first_seen: "distinct (first_seen_order xs)"
  by (induction xs rule: first_seen_order.induct) (auto simp: set_first_seen)

lemma first_seen_Nil: "first_seen_order xs = [] \<longleftrightarrow> xs = []"
  by (cases xs) auto

lemma fold_reference_lines:
  "fold (\<lambda>url references. references @ reference_line url) urls acc
     = acc @ concat (map reference_line urls)"
  by (induction urls arbitrary: acc) auto

lemma map_filter_truthy_uri:
  "List.map_filter truthy_uri chunks = concat (map uri_of_chunk chunks)"
  by (induction chunks) (auto simp: truthy_uri_def uri_of_chunk_def split: option.splits)

lemma references_of_eq:
  "references_of response =
     (if source_uris response = [] then []
      else references_heading @ concat (map reference_line (first_seen_order (source_uris response))))"
proof (cases "groundingChunks response")
  case None
  then show ?thesis by (simp add: references_of_def source_uris_def)
next
  case (Some chunks)
  then show ?thesis
    by (auto simp: references_of_def source_uris_def Let_def newSet_first_seen first_seen_Nil
        fold_reference_lines map_filter_truthy_uri)
qed

lemma searchScoringCriteria_fst:
  "fst (searchScoringCriteria ai info m w) =
     (case fst (ai \<lparr>req_model = m, req_prompt = SearchPrompt info, req_inlineData = [],
                    req_googleSearch = True\<rparr> w) of
        Inl e \<Rightarrow> Inl e
      | Inr response \<Rightarrow>
          (case resp_text response of
             None \<Rightarrow> Inl (undefinedRead ''trim'')
           | Some t \<Rightarrow> Inr (trim t @ references_of response)))"
  by (auto simp: searchScoringCriteria_def generateContent_def
      split: prod.splits sum.splits option.splits)

lemma trim_blank:
  assumes "\<forall>c \<in> set s. isWhiteSpace c"
  shows "trim s = []"
proof -
  have blank: "dropWhile isWhiteSpace s = []"
    using assms by (induction s) simp_all
  show ?thesis unfolding trim_def blank by simp
qed

subsection \<open>searchScoringCriteria\<close>

text \<open>
  Claim C8, as amended. When the service answers the search request with a response that
  has a text, searchScoringCriteria returns the text trimmed of surrounding whitespace;
  when the response carries source references the trimmed text is followed by the fixed
  heading (two newlines, a rule of three dashes, a newline, the bold Korean words for
  "reference material" with a colon, a newline) and by one line per unique URI, a dash, a
  blank, the URI and a newline, each URI once, in first-seen order, chunks without a URI
  or with an empty one being skipped; when it carries none, nothing is appended. When the
  response has no text, searchScoringCriteria fails with the TypeError of
  \<^verbatim>\<open>response.text.trim()\<close>, whatever references the response carries.
\<close>

theorem searchScoringCriteria_references:
  assumes "fst (ai \<lparr>req_model = m, req_prompt = SearchPrompt info, req_inlineData = [],
                    req_googleSearch = True\<rparr> w) = Inr response"
  shows "fst (searchScoringCriteria ai info m w) =
           (case resp_text response of
              None \<Rightarrow>
                Inl (ErrorObj (js ''Cannot read properties of undefined (reading ''
                               @ [0x27] @ js ''trim'' @ [0x27] @ js '')''))
            | Some t \<Rightarrow>
                Inr (trim t @
                     (if source_uris response = [] then []
                      else [0xA, 0xA, 0x2D, 0x2D, 0x2D, 0xA, 0x2A, 0x2A, 0xCC38, 0xACE0, 0x20,
                            0xC790, 0xB8CC, 0x3A, 0x2A, 0x2A, 0xA] @
                           concat (map (\<lambda>uri. js ''- '' @ uri @ [0xA])
                                     (first_seen_order (source_uris response))))))
         \<and> distinct (first_seen_order (source_uris response))
         \<and> set (first_seen_order (source_uris response)) = set (source_uris response)"
proof -
  have rl: "reference_line = (\<lambda>uri. js ''- '' @ uri @ [0xA])"
    by (rule ext) (simp add: reference_line_def)
  show ?thesis
    using assms
    by (simp add: searchScoringCriteria_fst references_of_eq distinct_first_seen set_first_seen
        references_heading_def rl undefinedRead_def split: option.splits)
qed

theorem searchScoringCriteria_references_witness:
  "fst (cited_service \<lparr>req_model = js ''gemini-2.5-pro'', req_prompt = SearchPrompt (js ''exam''),
                        req_inlineData = [], req_googleSearch = True\<rparr> ()) = Inr cited_response
   \<and> resp_text cited_response = Some (js '' criteria '')
   \<and> source_uris cited_response = [js ''a'', js ''b'', js ''a'']
   \<and> fst (searchScoringCriteria cited_service (js ''exam'') (js ''gemini-2.5-pro'') ()) =
       Inr (js ''criteria''
            @ [0xA, 0xA, 0x2D, 0x2D, 0x2D, 0xA, 0x2A, 0x2A, 0xCC38, 0xACE0, 0x20, 0xC790, 0xB8CC,
               0x3A, 0x2A, 0x2A, 0xA]
            @ js ''- a'' @ [0xA] @ js ''- b'' @ [0xA])"
proof -
  have h: "fst (cited_service \<lparr>req_model = js ''gemini-2.5-pro'', req_prompt = SearchPrompt (js ''exam''),
                        req_inlineData = [], req_googleSearch = True\<rparr> ()) = Inr cited_response"
    by (simp add: cited_service_def)
  have x: "resp_text cited_response = Some (js '' criteria '')"
    by (simp add: cited_response_def)
  have u: "source_uris cited_response = [js ''a'', js ''b'', js ''a'']"
    by (simp add: source_uris_def cited_response_def uri_of_chunk_def js_def)
  have t: "trim (js '' criteria '') = js ''criteria''"
    by (simp add: trim_def js_def isWhiteSpace_def)
  show ?thesis
    using searchScoringCriteria_references
      [where ai = cited_service and m = "js ''gemini-2.5-pro''" and info = "js ''exam''"
         and w = "()" and response = cited_response] h x u t
    by (simp add: js_def)
qed

text \<open>
  Claim C8 as stated fails, in two ways. A response that carries a source reference and no
  text is not answered with a text and a references section: the call fails. And the
  generated text \<open>criteria\<close> written between two blanks is not returned as it is, it is
  returned without the blanks.
\<close>

theorem searchScoringCriteria_textless_fails_and_text_trimmed:
  "source_uris textless_cited_response = [js ''a'']
   \<and> fst (searchScoringCriteria textless_cited_service (js ''exam'') (js ''gemini-2.5-flash'') ())
       = Inl (ErrorObj (js ''Cannot read properties of undefined (reading ''
                        @ [0x27] @ js ''trim'' @ [0x27] @ js '')''))
   \<and> resp_text cited_response = Some (js '' criteria '')
   \<and> fst (searchScoringCriteria cited_service (js ''exam'') (js ''gemini-2.5-flash'') ()) =
       Inr (js ''criteria''
            @ [0xA, 0xA, 0x2D, 0x2D, 0x2D, 0xA, 0x2A, 0x2A, 0xCC38, 0xACE0, 0x20, 0xC790, 0xB8CC,
               0x3A, 0x2A, 0x2A, 0xA]
            @ js ''- a'' @ [0xA] @ js ''- b'' @ [0xA])
   \<and> fst (searchScoringCriteria cited_service (js ''exam'') (js ''gemini-2.5-flash'') ()) \<noteq>
       Inr (js '' criteria ''
            @ [0xA, 0xA, 0x2D, 0x2D, 0x2D, 0xA, 0x2A, 0x2A, 0xCC38, 0xACE0, 0x20, 0xC790, 0xB8CC,
               0x3A, 0x2A, 0x2A, 0xA]
            @ js ''- a'' @ [0xA] @ js ''- b'' @ [0xA])"
  by (simp add: searchScoringCriteria_def generateContent_def cited_service_def cited_response_def
      textless_cited_service_def textless_cited_response_def source_uris_def uri_of_chunk_def
      undefinedRead_def
      references_of_def references_heading_def reference_line_def truthy_uri_def newSet_def
      setAdd_def trim_def isWhiteSpace_def js_def Let_def)

text \<open>
  Claim C9, as amended. searchScoringCriteria fails in two cases: when the service call
  throws, with the thrown value, and when the answer has no text at all, with the TypeError
  of \<^verbatim>\<open>response.text.trim()\<close>. An answer that has a text is never a failure: the result
  is the trimmed text and the references section, so a text that is empty or only
  whitespace, with no reference, is returned as the empty criteria text.
\<close>

theorem searchScoringCriteria_failures_and_empty_text:
  "((\<exists>e. fst (searchScoringCriteria ai info m w) = Inl e) \<longleftrightarrow>
      (\<exists>e. fst (ai \<lparr>req_model = m, req_prompt = SearchPrompt info, req_inlineData = [],
                     req_googleSearch = True\<rparr> w) = Inl e)
      \<or> (\<exists>response. fst (ai \<lparr>req_model = m, req_prompt = SearchPrompt info,
                               req_inlineData = [], req_googleSearch = True\<rparr> w) = Inr response
            \<and> resp_text response = None))
   \<and> (fst (ai \<lparr>req_model = m, req_prompt = SearchPrompt info, req_inlineData = [],
               req_googleSearch = True\<rparr> w) = Inl e \<longrightarrow>
        fst (searchScoringCriteria ai info m w) = Inl e)
   \<and> (fst (ai \<lparr>req_model = m, req_prompt = SearchPrompt info, req_inlineData = [],
               req_googleSearch = True\<rparr> w) = Inr response
        \<and> resp_text response = None \<longrightarrow>
        fst (searchScoringCriteria ai info m w) = Inl (undefinedRead ''trim''))
   \<and> (fst (ai \<lparr>req_model = m, req_prompt = SearchPrompt info, req_inlineData = [],
               req_googleSearch = True\<rparr> w) = Inr response
        \<and> resp_text response = Some t \<longrightarrow>
        fst (searchScoringCriteria ai info m w) = Inr (trim t @ references_of response))
   \<and> (fst (ai \<lparr>req_model = m, req_prompt = SearchPrompt info, req_inlineData = [],
               req_googleSearch = True\<rparr> w) = Inr response
        \<and> resp_text response = Some t \<and> (\<forall>c \<in> set t. isWhiteSpace c)
        \<and> source_uris response = [] \<longrightarrow>
        fst (searchScoringCriteria ai info m w) = Inr [])"
  by (auto simp: searchScoringCriteria_fst references_of_eq trim_blank
      split: sum.splits option.splits)

theorem searchScoringCriteria_failures_and_empty_text_witness:
  "fst (searchScoringCriteria down_service (js ''exam'') (js ''gemini-2.5-pro'') ())
     = Inl (ErrorObj (js ''network down''))
   \<and> fst (searchScoringCriteria textless_service (js ''exam'') (js ''gemini-2.5-pro'') ())
     = Inl (undefinedRead ''trim'')
   \<and> fst (searchScoringCriteria blank_service (js ''exam'') (js ''gemini-2.5-pro'') ()) = Inr []"
proof -
  let ?req = "\<lparr>req_model = js ''gemini-2.5-pro'', req_prompt = SearchPrompt (js ''exam''),
               req_inlineData = [], req_googleSearch = True\<rparr>"
  let ?none = "\<lparr>resp_text = None, groundingChunks = None\<rparr>"
  let ?blank = "\<lparr>resp_text = Some [0x20, 0x20, 0xA], groundingChunks = None\<rparr>"
  have d: "fst (down_service ?req ()) = Inl (ErrorObj (js ''network down''))"
    by (simp add: down_service_def)
  have n: "fst (textless_service ?req ()) = Inr ?none \<and> resp_text ?none = None"
    by (simp add: textless_service_def)
  have b: "fst (blank_service ?req ()) = Inr ?blank \<and> resp_text ?blank = Some [0x20, 0x20, 0xA]
           \<and> (\<forall>c \<in> set [0x20, 0x20, 0xA]. isWhiteSpace c) \<and> source_uris ?blank = []"
    by (simp add: blank_service_def isWhiteSpace_def source_uris_def)
  have 1: "fst (searchScoringCriteria down_service (js ''exam'') (js ''gemini-2.5-pro'') ())
             = Inl (ErrorObj (js ''network down''))"
    using searchScoringCriteria_failures_and_empty_text
      [where ai = down_service and info = "js ''exam''" and m = "js ''gemini-2.5-pro''"
         and w = "()" and e = "ErrorObj (js ''network down'')"] d
    by blast
  have 2: "fst (searchScoringCriteria textless_service (js ''exam'') (js ''gemini-2.5-pro'') ())
             = Inl (undefinedRead ''trim'')"
    using searchScoringCriteria_failures_and_empty_text
      [where ai = textless_service and info = "js ''exam''" and m = "js ''gemini-2.5-pro''"
         and w = "()" and response = ?none] n
    by blast
  have 3: "fst (searchScoringCriteria blank_service (js ''exam'') (js ''gemini-2.5-pro'') ()) = Inr []"
    using searchScoringCriteria_failures_and_empty_text
      [where ai = blank_service and info = "js ''exam''" and m = "js ''gemini-2.5-pro''"
         and w = "()" and response = ?blank and t = "[0x20, 0x20, 0xA]"] b
    by blast
  show ?thesis using 1 2 3 by simp
qed

text \<open>
  Claim C9 as stated fails: on a service that answers with an empty text,
  searchScoringCriteria returns the empty criteria text as a success.
\<close>

theorem searchScoringCriteria_empty_success:
  "fst (searchScoringCriteria empty_service (js ''exam'') (js ''gemini-2.5-flash'') ()) = Inr []"
  by (simp add: searchScoringCriteria_def generateContent_def empty_service_def trim_def
      references_of_def)

subsection \<open>formatReportToHtml\<close>

text \<open>
  What the stripping does achieve: an answer that is exactly a fenced block, with nothing
  before the opening fence and nothing after the closing one, loses both fences.
\<close>

lemma stripFences_exact_wrapping:
  "stripFences (js ''```html'' @ body @ js ''```'') = trim body"
  by (simp add: stripFences_def startsWith_def endsWith_def substring_def substringFrom_def
      js_def Let_def)

text \<open>
  Claim C7. The fences are looked for at the very start and the very end of the untrimmed
  answer, and the answer is trimmed afterwards. On an answer that ends with a newline after
  its closing fence, the opening fence is removed, the closing fence is not found, and the
  returned content ends with the fence.
\<close>

theorem formatReportToHtml_fence_left_before_newline:
  "fst (formatReportToHtml fenced_service raw cdata sname date w)
     = Inr (js ''<p>ok</p>'' @ [0xA] @ js ''```'')
   \<and> endsWith (js ''<p>ok</p>'' @ [0xA] @ js ''```'') (js ''```'')"
  by (simp add: formatReportToHtml_def generateContent_def fenced_service_def fenced_text_def
      stripFences_def startsWith_def endsWith_def substring_def substringFrom_def trim_def
      isWhiteSpace_def js_def Let_def)


section \<open>Properties of the batch loop\<close>

subsection \<open>One iteration\<close>

lemma setIsLoading_simps [simp]:
  "state (setIsLoading b r) = (state r)\<lparr>isLoading := b\<rparr>"
  "world (setIsLoading b r) = world r"
  "log (setIsLoading b r) = log r @ [Update SetIsLoading ((state r)\<lparr>isLoading := b\<rparr>)]"
  by (simp_all add: setIsLoading_def Let_def)

lemma processStudent_log:
  "log (processStudent ai clk commonData i student r)
     = log r @ newEvents ai clk commonData i student r"
  by (simp add: processStudent_def newEvents_def resultsAfter_def withResults_def gradeOutcome_def
      formatOutcome_def reportDataOf_def setProgress_def setResults_def readClock_def
      callGrade_def callFormat_def catchBlock_def Let_def split_beta
      split: sum.splits)

lemma processStudent_state:
  "state (processStudent ai clk commonData i student r)
     = withResults r i (resultsAfter ai clk commonData student r)"
  by (simp add: processStudent_def resultsAfter_def withResults_def gradeOutcome_def
      formatOutcome_def reportDataOf_def setProgress_def setResults_def readClock_def
      callGrade_def callFormat_def catchBlock_def Let_def split_beta
      split: sum.splits)

lemma processStudent_world:
  "world (processStudent ai clk commonData i student r)
     = (case fst (gradeOutcome ai clk commonData student r) of
          Inl e \<Rightarrow> fst (snd (gradeOutcome ai clk commonData student r))
        | Inr rawReport \<Rightarrow> fst (snd (formatOutcome ai clk commonData student rawReport r)))"
  by (simp add: processStudent_def resultsAfter_def withResults_def gradeOutcome_def
      formatOutcome_def reportDataOf_def setProgress_def setResults_def readClock_def
      callGrade_def callFormat_def catchBlock_def Let_def split_beta
      split: sum.splits)


subsection \<open>The loop as a sequence of iterations\<close>

lemma batchLoop_iter:
  "i \<le> length sts \<Longrightarrow>
     batchLoop ai clk commonData sts i (iter ai clk commonData sts i r)
       = iter ai clk commonData sts (length sts) r"
proof (induction "length sts - i" arbitrary: i)
  case 0
  then have "i = length sts" by simp
  then show ?case by (subst batchLoop.simps) simp
next
  case (Suc d)
  then have lt: "i < length sts" and d: "d = length sts - Suc i" by simp_all
  have "batchLoop ai clk commonData sts i (iter ai clk commonData sts i r)
          = batchLoop ai clk commonData sts (Suc i) (iter ai clk commonData sts (Suc i) r)"
    using lt by (subst batchLoop.simps) simp
  also have "\<dots> = iter ai clk commonData sts (length sts) r"
    using Suc.hyps(1) [OF d] lt by simp
  finally show ?case .
qed

lemma handleGenerateReport_iter:
  "handleGenerateReport ai clk formData s0 w0 =
     setIsLoading False
       (iter ai clk (commonDataOf formData) (students formData) (length (students formData))
          (startRun formData s0 w0))"
proof -
  have "batchLoop ai clk (commonDataOf formData) (students formData) 0 (startRun formData s0 w0)
          = iter ai clk (commonDataOf formData) (students formData) (length (students formData))
              (startRun formData s0 w0)"
    using batchLoop_iter [of 0 "students formData" ai clk "commonDataOf formData"
        "startRun formData s0 w0"] by simp
  then show ?thesis
    by (simp add: handleGenerateReport_def Let_def setIsLoading_def setError_def setProgress_def
        setResults_def startRun_def startState_def commonDataOf_def)
qed

lemma iter_log:
  "log (iter ai clk commonData sts m r) =
     log r @ concat (map (\<lambda>k. newEvents ai clk commonData k (sts ! k)
                                 (iter ai clk commonData sts k r)) [0..<m])"
  by (induction m) (simp_all add: processStudent_log)

lemma newEvents_tag:
  "e \<in> set (newEvents ai clk commonData i student r) \<Longrightarrow> tag e = None \<or> tag e = Some i"
  by (auto simp: newEvents_def Let_def split: sum.splits)

lemma tagged_in_iter:
  assumes "tag e = Some k" and "\<forall>e' \<in> set (log r). tag e' = None"
  shows "e \<in> set (log (iter ai clk commonData sts m r)) \<longleftrightarrow>
           k < m \<and> e \<in> set (newEvents ai clk commonData k (sts ! k)
                               (iter ai clk commonData sts k r))"
proof -
  have notr: "e \<notin> set (log r)" using assms by auto
  have other: "e \<notin> set (newEvents ai clk commonData j (sts ! j) (iter ai clk commonData sts j r))"
    if "j \<noteq> k" for j
    using newEvents_tag [of e ai clk commonData j "sts ! j" "iter ai clk commonData sts j r"]
      assms(1) that by auto
  have "e \<in> set (log (iter ai clk commonData sts m r)) \<longleftrightarrow>
          (\<exists>j<m. e \<in> set (newEvents ai clk commonData j (sts ! j)
                               (iter ai clk commonData sts j r)))"
    using notr by (auto simp: iter_log)
  also have "\<dots> \<longleftrightarrow> k < m \<and> e \<in> set (newEvents ai clk commonData k (sts ! k)
                               (iter ai clk commonData sts k r))"
    using other by metis
  finally show ?thesis .
qed


lemma nth_of_map_eq: "map f xs = map g ys \<Longrightarrow> k < length ys \<Longrightarrow> f (xs ! k) = g (ys ! k)"
  by (metis length_map nth_map)

lemma length_of_map_eq: "map f xs = map g ys \<Longrightarrow> length xs = length ys"
  by (metis length_map)


lemma GradeOut_in_newEvents:
  "GradeOut j out \<in> set (newEvents ai clk commonData i student r) \<longleftrightarrow>
     j = i \<and> out = fst (gradeOutcome ai clk commonData student r)"
  by (auto simp: newEvents_def Let_def split: sum.splits)

lemma Format_in_newEvents:
  "Format j \<in> set (newEvents ai clk commonData i student r) \<longleftrightarrow>
     j = i \<and> (\<exists>rawReport. fst (gradeOutcome ai clk commonData student r) = Inr rawReport)"
  by (auto simp: newEvents_def Let_def split: sum.splits)

lemma FormatOut_in_newEvents:
  "FormatOut j out \<in> set (newEvents ai clk commonData i student r) \<longleftrightarrow>
     j = i \<and> (\<exists>rawReport. fst (gradeOutcome ai clk commonData student r) = Inr rawReport
               \<and> out = fst (formatOutcome ai clk commonData student rawReport r))"
  by (auto simp: newEvents_def Let_def split: sum.splits)

lemma Stamp_in_newEvents:
  "Stamp j d \<in> set (newEvents ai clk commonData i student r) \<longleftrightarrow>
     j = i \<and> d = fst (clk (world r))"
  by (auto simp: newEvents_def Let_def split: sum.splits)

lemma Sent_in_newEvents:
  "Sent j q \<in> set (newEvents ai clk commonData i student r) \<longleftrightarrow>
     j = i \<and> (q \<in> set (snd (snd (gradeOutcome ai clk commonData student r)))
              \<or> (\<exists>rawReport. fst (gradeOutcome ai clk commonData student r) = Inr rawReport
                    \<and> q \<in> set (snd (snd (formatOutcome ai clk commonData student rawReport r)))))"
  by (auto simp: newEvents_def Let_def split: sum.splits)

lemma startRun_untagged: "\<forall>e \<in> set (log (startRun formData s0 w0)). tag e = None"
  by (simp add: startRun_def)

text \<open>An event of iteration \<open>k\<close> is in the log of the handler exactly when \<open>k\<close> is an index
  of the roster and the event is among those of the \<open>k\<close>-th iteration.\<close>

lemma tagged_in_handler:
  assumes "tag e = Some k"
  shows "e \<in> set (log (handleGenerateReport ai clk formData s0 w0)) \<longleftrightarrow>
           k < length (students formData)
           \<and> e \<in> set (newEvents ai clk (commonDataOf formData) k (students formData ! k)
                       (iter ai clk (commonDataOf formData) (students formData) k
                          (startRun formData s0 w0)))"
proof -
  have "e \<noteq> Update SetIsLoading s" for s using assms by auto
  then show ?thesis
    using tagged_in_iter [OF assms startRun_untagged, where ai = ai and clk = clk
        and commonData = "commonDataOf formData" and sts = "students formData"
        and m = "length (students formData)"]
    by (simp add: handleGenerateReport_iter)
qed

lemma results_of_handler:
  "results (state (handleGenerateReport ai clk formData s0 w0)) =
     results (state (iter ai clk (commonDataOf formData) (students formData)
                       (length (students formData)) (startRun formData s0 w0)))"
  by (simp add: handleGenerateReport_iter)

subsection \<open>The results collection\<close>

lemma markProgress_ids [simp]: "map studentId (markProgress sid m rs) = map studentId rs"
  by (simp add: markProgress_def)
lemma markError_ids [simp]: "map studentId (markError sid m rs) = map studentId rs"
  by (simp add: markError_def)
lemma markDone_ids [simp]: "map studentId (markDone sid d rs) = map studentId rs"
  by (simp add: markDone_def)
lemma markProgress_names [simp]: "map studentName (markProgress sid m rs) = map studentName rs"
  by (simp add: markProgress_def)
lemma markError_names [simp]: "map studentName (markError sid m rs) = map studentName rs"
  by (simp add: markError_def)
lemma markDone_names [simp]: "map studentName (markDone sid d rs) = map studentName rs"
  by (simp add: markDone_def)
lemma markProgress_length [simp]: "length (markProgress sid m rs) = length rs"
  by (simp add: markProgress_def)
lemma markError_length [simp]: "length (markError sid m rs) = length rs"
  by (simp add: markError_def)
lemma markDone_length [simp]: "length (markDone sid d rs) = length rs"
  by (simp add: markDone_def)

lemma markProgress_nth:
  "j < length rs \<Longrightarrow> markProgress sid m rs ! j =
     (if studentId (rs ! j) = sid then (rs ! j)\<lparr>progressMessage := Some m\<rparr> else rs ! j)"
  by (simp add: markProgress_def)
lemma markError_nth:
  "j < length rs \<Longrightarrow> markError sid m rs ! j =
     (if studentId (rs ! j) = sid
      then (rs ! j)\<lparr>status := Error, error := Some m, progressMessage := None\<rparr> else rs ! j)"
  by (simp add: markError_def)
lemma markDone_nth:
  "j < length rs \<Longrightarrow> markDone sid d rs ! j =
     (if studentId (rs ! j) = sid
      then (rs ! j)\<lparr>status := Done, data := Some d, progressMessage := None\<rparr> else rs ! j)"
  by (simp add: markDone_def)

lemmas mark_nth = markProgress_nth markError_nth markDone_nth

lemma resultsAfter_ids [simp]:
  "map studentId (resultsAfter ai clk commonData student r) = map studentId (results (state r))"
  by (simp add: resultsAfter_def Let_def split: sum.splits)

lemma resultsAfter_names [simp]:
  "map studentName (resultsAfter ai clk commonData student r) = map studentName (results (state r))"
  by (simp add: resultsAfter_def Let_def split: sum.splits)

lemma resultsAfter_length [simp]:
  "length (resultsAfter ai clk commonData student r) = length (results (state r))"
  by (simp add: resultsAfter_def Let_def split: sum.splits)

lemma resultsAfter_other:
  "j < length (results (state r)) \<Longrightarrow> studentId (results (state r) ! j) \<noteq> sd_id student \<Longrightarrow>
     resultsAfter ai clk commonData student r ! j = results (state r) ! j"
  by (simp add: resultsAfter_def Let_def mark_nth split: sum.splits)

lemma resultsAfter_own:
  "j < length (results (state r)) \<Longrightarrow> studentId (results (state r) ! j) = sd_id student \<Longrightarrow>
     terminal (resultsAfter ai clk commonData student r ! j)"
  by (simp add: resultsAfter_def Let_def mark_nth terminal_def split: sum.splits)

lemma resultsAfter_terminal:
  "j < length (results (state r)) \<Longrightarrow> terminal (results (state r) ! j) \<Longrightarrow>
     terminal (resultsAfter ai clk commonData student r ! j)"
  using resultsAfter_other [of j r student ai clk commonData]
    resultsAfter_own [of j r student ai clk commonData]
  by (cases "studentId (results (state r) ! j) = sd_id student") simp_all

lemma iter_ids [simp]:
  "map studentId (results (state (iter ai clk commonData sts m r))) = map studentId (results (state r))"
  by (induction m) (simp_all add: processStudent_state withResults_def)

lemma iter_names [simp]:
  "map studentName (results (state (iter ai clk commonData sts m r)))
     = map studentName (results (state r))"
  by (induction m) (simp_all add: processStudent_state withResults_def)

lemma iter_length [simp]:
  "length (results (state (iter ai clk commonData sts m r))) = length (results (state r))"
  using iter_ids [of ai clk commonData sts m r] by (metis length_map)

lemma iter_terminal:
  assumes "map studentId (results (state r)) = map sd_id sts" and "m \<le> length sts" and "j < m"
  shows "terminal (results (state (iter ai clk commonData sts m r)) ! j)"
  using assms(2,3)
proof (induction m)
  case 0
  then show ?case by simp
next
  case (Suc m)
  let ?r = "iter ai clk commonData sts m r"
  have len: "length (results (state ?r)) = length sts"
    using assms(1) by (metis iter_length length_map)
  have ids: "studentId (results (state ?r) ! m) = sd_id (sts ! m)"
    using assms(1) Suc.prems(1) len
    by (metis iter_ids Suc_le_lessD nth_map)
  show ?case
  proof (cases "j = m")
    case True
    then show ?thesis
      using resultsAfter_own [of m ?r "sts ! m" ai clk commonData] ids len Suc.prems
      by (simp add: processStudent_state withResults_def)
  next
    case False
    then have "j < m" using Suc.prems by simp
    then have "terminal (results (state ?r) ! j)" using Suc by simp
    then show ?thesis
      using resultsAfter_terminal [of j ?r ai clk commonData "sts ! m"] len Suc.prems
      by (simp add: processStudent_state withResults_def)
  qed
qed

lemma newEvents_snapshot_ids:
  "Update st s \<in> set (newEvents ai clk commonData i student r) \<Longrightarrow>
     map studentId (results s) = map studentId (results (state r))"
  by (auto simp: newEvents_def Let_def withResults_def split: sum.splits)

lemma startRun_ids [simp]:
  "map studentId (results (state (startRun formData s0 w0))) = map sd_id (students formData)"
  by (simp add: startRun_def startState_def initialResult_def comp_def)

lemma startRun_names [simp]:
  "map studentName (results (state (startRun formData s0 w0))) = map sd_name (students formData)"
  by (simp add: startRun_def startState_def initialResult_def comp_def)

text \<open>What the iteration of a student makes of the records that carry the student's id.\<close>

lemma resultsAfter_grade_failed:
  assumes "j < length (results (state r))" and "studentId (results (state r) ! j) = sd_id student"
    and "fst (gradeOutcome ai clk commonData student r) = Inl e"
  shows "resultsAfter ai clk commonData student r ! j =
           (results (state r) ! j)\<lparr>status := Error, error := Some (message_of e),
                                    progressMessage := None\<rparr>"
  using assms by (simp add: resultsAfter_def Let_def mark_nth)

lemma resultsAfter_format_failed:
  assumes "j < length (results (state r))" and "studentId (results (state r) ! j) = sd_id student"
    and "fst (gradeOutcome ai clk commonData student r) = Inr rawReport"
    and "fst (formatOutcome ai clk commonData student rawReport r) = Inl e"
  shows "resultsAfter ai clk commonData student r ! j =
           (results (state r) ! j)\<lparr>status := Error, error := Some (message_of e),
                                    progressMessage := None\<rparr>"
  using assms by (simp add: resultsAfter_def Let_def mark_nth)

lemma resultsAfter_done:
  assumes "j < length (results (state r))" and "studentId (results (state r) ! j) = sd_id student"
    and "fst (gradeOutcome ai clk commonData student r) = Inr rawReport"
    and "fst (formatOutcome ai clk commonData student rawReport r) = Inr htmlReport"
  shows "resultsAfter ai clk commonData student r ! j =
           (results (state r) ! j)\<lparr>status := Done,
              data := Some (reportDataOf commonData student htmlReport (fst (clk (world r)))),
              progressMessage := None\<rparr>"
  using assms by (simp add: resultsAfter_def Let_def mark_nth)

text \<open>Later iterations leave the record of student \<open>k\<close> alone when no later student has its id.\<close>

lemma iter_record_stable:
  assumes ids: "map studentId (results (state r)) = map sd_id sts"
    and k: "k < length sts"
    and later: "\<forall>j. m0 \<le> j \<and> j < length sts \<longrightarrow> sd_id (sts ! j) \<noteq> sd_id (sts ! k)"
  shows "m0 + d \<le> length sts \<Longrightarrow>
           results (state (iter ai clk commonData sts (m0 + d) r)) ! k
             = results (state (iter ai clk commonData sts m0 r)) ! k"
proof (induction d)
  case 0
  then show ?case by simp
next
  case (Suc d)
  let ?r = "iter ai clk commonData sts (m0 + d) r"
  have ids': "map studentId (results (state ?r)) = map sd_id sts"
    using ids by simp
  have len: "length (results (state ?r)) = length sts"
    using ids' by (rule length_of_map_eq)
  have idk: "studentId (results (state ?r) ! k) = sd_id (sts ! k)"
    using ids' k by (rule nth_of_map_eq)
  have "sd_id (sts ! (m0 + d)) \<noteq> sd_id (sts ! k)"
    using later Suc.prems by simp
  then have "resultsAfter ai clk commonData (sts ! (m0 + d)) ?r ! k = results (state ?r) ! k"
    using resultsAfter_other [of k ?r "sts ! (m0 + d)" ai clk commonData] len k idk by simp
  then show ?case
    using Suc by (simp add: processStudent_state withResults_def)
qed

lemma handler_record:
  assumes k: "k < length (students formData)"
    and later: "\<forall>j. k < j \<and> j < length (students formData) \<longrightarrow>
                  sd_id (students formData ! j) \<noteq> sd_id (students formData ! k)"
  shows "results (state (handleGenerateReport ai clk formData s0 w0)) ! k =
           resultsAfter ai clk (commonDataOf formData) (students formData ! k)
             (iter ai clk (commonDataOf formData) (students formData) k (startRun formData s0 w0)) ! k"
proof -
  let ?sts = "students formData"
  let ?r0 = "startRun formData s0 w0 :: 'a run"
  define d where "d = length ?sts - Suc k"
  have d: "length ?sts = Suc k + d"
    using k by (simp add: d_def)
  have "results (state (iter ai clk (commonDataOf formData) ?sts (Suc k + d) ?r0)) ! k
          = results (state (iter ai clk (commonDataOf formData) ?sts (Suc k) ?r0)) ! k"
    using iter_record_stable [where r = ?r0 and sts = ?sts and k = k and ?m0.0 = "Suc k"
        and d = d and ai = ai and clk = clk and commonData = "commonDataOf formData"] k later d
    by simp
  then show ?thesis
    using d by (simp add: results_of_handler processStudent_state withResults_def)
qed

lemma iter_own_id:
  assumes "k < length (students formData)"
  shows "studentId (results (state (iter ai clk commonData (students formData) m
                                      (startRun formData s0 w0))) ! k)
           = sd_id (students formData ! k)"
    and "k < length (results (state (iter ai clk commonData (students formData) m
                                      (startRun formData s0 w0))))"
proof -
  have "map studentId (results (state (iter ai clk commonData (students formData) m
          (startRun formData s0 w0)))) = map sd_id (students formData)"
    by simp
  then show "studentId (results (state (iter ai clk commonData (students formData) m
                                      (startRun formData s0 w0))) ! k)
           = sd_id (students formData ! k)"
    using assms by (rule nth_of_map_eq)
  show "k < length (results (state (iter ai clk commonData (students formData) m
                                      (startRun formData s0 w0))))"
    using assms by (simp add: startRun_def startState_def)
qed

subsection \<open>The progress cell and the order of events\<close>

lemma progressValues_append [simp]:
  "progressValues (xs @ ys) = progressValues xs @ progressValues ys"
  by (simp add: progressValues_def map_filter_def)


lemma iter_total [simp]:
  "total (progress (state (iter ai clk commonData sts m r))) = total (progress (state r))"
  by (induction m) (simp_all add: processStudent_state withResults_def)


lemma iter_isLoading [simp]:
  "isLoading (state (iter ai clk commonData sts m r)) = isLoading (state r)"
  by (induction m) (simp_all add: processStudent_state withResults_def)




lemma concat_tags_below:
  assumes "e \<in> set (concat (map (\<lambda>j. newEvents ai clk commonData j (sts ! j) (f j)) [a..<b]))"
    and "tag e = Some j"
  shows "a \<le> j \<and> j < b"
proof -
  from assms(1) obtain i where i: "a \<le> i" "i < b"
    and "e \<in> set (newEvents ai clk commonData i (sts ! i) (f i))"
    by auto
  then have "tag e = None \<or> tag e = Some i"
    using newEvents_tag by blast
  with assms(2) i show ?thesis by simp
qed

lemma handler_log:
  "log (handleGenerateReport ai clk formData s0 w0) =
     log (startRun formData s0 w0 :: 'w run)
     @ concat (map (\<lambda>k. newEvents ai clk (commonDataOf formData) k (students formData ! k)
                       (iter ai clk (commonDataOf formData) (students formData) k
                          (startRun formData s0 w0))) [0..<length (students formData)])
     @ [Update SetIsLoading
          ((state (iter ai clk (commonDataOf formData) (students formData)
                     (length (students formData)) (startRun formData s0 w0)))\<lparr>isLoading := False\<rparr>)]"
  for w0 :: 'w
  by (simp add: handleGenerateReport_iter iter_log)

lemma clockReadings_append [simp]:
  "clockReadings k (xs @ ys) = clockReadings k xs @ clockReadings k ys"
  by (simp add: clockReadings_def map_filter_def)

lemma clockReadings_newEvents:
  "clockReadings k (newEvents ai clk commonData i student r)
     = (if i = k then [fst (clk (world r))] else [])"
  by (simp add: clockReadings_def newEvents_def Let_def map_filter_def comp_def
      split: sum.splits)

lemma clockReadings_iter:
  "clockReadings k (log (iter ai clk commonData sts m r))
     = clockReadings k (log r)
       @ (if k < m then [fst (clk (world (iter ai clk commonData sts k r)))] else [])"
  by (induction m) (auto simp: processStudent_log clockReadings_newEvents less_Suc_eq)

lemma clockReadings_handler:
  "clockReadings k (log (handleGenerateReport ai clk formData s0 w0))
     = (if k < length (students formData)
        then [fst (clk (world (iter ai clk (commonDataOf formData) (students formData) k
                                 (startRun formData s0 w0))))]
        else [])"
  by (simp add: handleGenerateReport_iter clockReadings_iter)
    (simp add: clockReadings_def startRun_def map_filter_def)

lemma formatOutcome_sent:
  "snd (snd (formatOutcome ai clk commonData student rawReport r))
     = [\<lparr>req_model = cd_model commonData,
         req_prompt = FormatPrompt (fst (clk (world r))) (sd_name student) (cd_examInfo commonData)
                        (interpolate rawReport),
         req_inlineData = [], req_googleSearch = False\<rparr>]"
  by (simp add: formatOutcome_def formatReportToHtml_def generateContent_def
      split: prod.splits sum.splits option.splits)

lemma newEvents_stamp:
  "\<exists>u rest. newEvents ai clk commonData i student r
              = Update SetProgress u # Stamp i (fst (clk (world r))) # rest
            \<and> Grade i \<in> set rest"
  by (auto simp: newEvents_def Let_def split: sum.splits)

lemma handler_snapshot_ids:
  assumes "Update SetResults s \<in> set (log (handleGenerateReport ai clk formData s0 w0))"
  shows "map studentId (results s) = map sd_id (students formData)"
proof -
  let ?n = "length (students formData)"
  let ?r0 = "startRun formData s0 w0 :: 'a run"
  let ?it = "\<lambda>m. iter ai clk (commonDataOf formData) (students formData) m ?r0"
  have "Update SetResults s \<in> set (log (?it ?n))"
    using assms by (auto simp: handleGenerateReport_iter)
  then consider "Update SetResults s \<in> set (log ?r0)"
    | k where "k < ?n" and "Update SetResults s \<in> set (newEvents ai clk (commonDataOf formData) k
                  (students formData ! k) (?it k))"
    by (auto simp: iter_log)
  then show ?thesis
  proof cases
    case 1
    then show ?thesis by (auto simp: startRun_def startState_def initialResult_def comp_def)
  next
    case 2
    then show ?thesis using newEvents_snapshot_ids by fastforce
  qed
qed

subsection \<open>The steps of a record\<close>

lemma snapshots_append [simp]: "snapshots (xs @ ys) = snapshots xs @ snapshots ys"
  by (simp add: snapshots_def map_filter_def)

lemma snapshots_newEvents:
  "snapshots (newEvents ai clk commonData i student r) =
     (let sid = sd_id student;
          a = markProgress sid analyzing_message (results (state r))
      in a # (case fst (gradeOutcome ai clk commonData student r) of
                Inl e \<Rightarrow> [markError sid (message_of e) a]
              | Inr rawReport \<Rightarrow>
                  [markProgress sid formatting_message a,
                   resultsAfter ai clk commonData student r]))"
  by (simp add: snapshots_def newEvents_def withResults_def Let_def map_filter_def comp_def
      split: sum.splits)

text \<open>With distinct ids, an update by id is an update of one position.\<close>

lemma own_index:
  assumes "map studentId rs = map sd_id sts" and "distinct (map sd_id sts)"
    and "m < length sts" and "j < length sts"
  shows "studentId (rs ! j) = sd_id (sts ! m) \<longleftrightarrow> j = m"
proof -
  have "studentId (rs ! j) = sd_id (sts ! j)"
    using assms(1,4) by (rule nth_of_map_eq)
  moreover have "sd_id (sts ! j) = sd_id (sts ! m) \<longleftrightarrow> j = m"
    using nth_eq_iff_index_eq [of "map sd_id sts" j m] assms(2,3,4) by simp
  ultimately show ?thesis by simp
qed

lemma markProgress_one:
  assumes "map studentId rs = map sd_id sts" and "distinct (map sd_id sts)" and "m < length sts"
  shows "markProgress (sd_id (sts ! m)) msg rs = rs[m := (rs ! m)\<lparr>progressMessage := Some msg\<rparr>]"
proof (rule nth_equalityI)
  show "length (markProgress (sd_id (sts ! m)) msg rs)
          = length (rs[m := (rs ! m)\<lparr>progressMessage := Some msg\<rparr>])"
    by simp
next
  fix j assume "j < length (markProgress (sd_id (sts ! m)) msg rs)"
  then have j: "j < length rs" by simp
  then have "j < length sts" using assms(1) length_of_map_eq by fastforce
  then show "markProgress (sd_id (sts ! m)) msg rs ! j
               = rs[m := (rs ! m)\<lparr>progressMessage := Some msg\<rparr>] ! j"
    using j own_index [OF assms, of j] by (auto simp: markProgress_nth nth_list_update)
qed

lemma markError_one:
  assumes "map studentId rs = map sd_id sts" and "distinct (map sd_id sts)" and "m < length sts"
  shows "markError (sd_id (sts ! m)) msg rs
           = rs[m := (rs ! m)\<lparr>status := Error, error := Some msg, progressMessage := None\<rparr>]"
proof (rule nth_equalityI)
  show "length (markError (sd_id (sts ! m)) msg rs)
          = length (rs[m := (rs ! m)\<lparr>status := Error, error := Some msg, progressMessage := None\<rparr>])"
    by simp
next
  fix j assume "j < length (markError (sd_id (sts ! m)) msg rs)"
  then have j: "j < length rs" by simp
  then have "j < length sts" using assms(1) length_of_map_eq by fastforce
  then show "markError (sd_id (sts ! m)) msg rs ! j
               = rs[m := (rs ! m)\<lparr>status := Error, error := Some msg, progressMessage := None\<rparr>] ! j"
    using j own_index [OF assms, of j] by (auto simp: markError_nth nth_list_update)
qed

lemma markDone_one:
  assumes "map studentId rs = map sd_id sts" and "distinct (map sd_id sts)" and "m < length sts"
  shows "markDone (sd_id (sts ! m)) d rs
           = rs[m := (rs ! m)\<lparr>status := Done, data := Some d, progressMessage := None\<rparr>]"
proof (rule nth_equalityI)
  show "length (markDone (sd_id (sts ! m)) d rs)
          = length (rs[m := (rs ! m)\<lparr>status := Done, data := Some d, progressMessage := None\<rparr>])"
    by simp
next
  fix j assume "j < length (markDone (sd_id (sts ! m)) d rs)"
  then have j: "j < length rs" by simp
  then have "j < length sts" using assms(1) length_of_map_eq by fastforce
  then show "markDone (sd_id (sts ! m)) d rs ! j
               = rs[m := (rs ! m)\<lparr>status := Done, data := Some d, progressMessage := None\<rparr>] ! j"
    using j own_index [OF assms, of j] by (auto simp: markDone_nth nth_list_update)
qed

lemma record_step_refl [simp]: "record_step a a"
  by (simp add: record_step_def)

lemma step_update:
  "m < length rs \<Longrightarrow> record_step x y \<Longrightarrow> list_all2 record_step (rs[m := x]) (rs[m := y])"
  by (auto simp: list_all2_conv_all_nth nth_list_update)

lemma step_first_update:
  "m < length rs \<Longrightarrow> record_step (rs ! m) y \<Longrightarrow> list_all2 record_step rs (rs[m := y])"
  using step_update [of m rs "rs ! m" y] by simp

text \<open>The steps of one record, from the record as initialised.\<close>

lemma messages_distinct:
  "waiting_message \<noteq> analyzing_message" "waiting_message \<noteq> formatting_message"
  "analyzing_message \<noteq> formatting_message"
  by (simp_all add: waiting_message_def analyzing_message_def formatting_message_def)

lemma phase_initial [simp]: "phase_of (initialResult s) = Some Pending"
  by (simp add: phase_of_def initialResult_def)

lemma phase_analyzing [simp]:
  "phase_of ((initialResult s)\<lparr>progressMessage := Some analyzing_message\<rparr>) = Some Analyzing"
  using messages_distinct by (auto simp: phase_of_def initialResult_def)

lemma phase_formatting [simp]:
  "phase_of ((initialResult s)\<lparr>progressMessage := Some formatting_message\<rparr>) = Some Formatting"
  using messages_distinct by (auto simp: phase_of_def initialResult_def)

lemma phase_error [simp]:
  "phase_of (r\<lparr>status := Error, error := e, progressMessage := None\<rparr>) = Some Failed"
  by (simp add: phase_of_def)

lemma phase_done [simp]:
  "phase_of (r\<lparr>status := Done, data := d, progressMessage := None\<rparr>) = Some Completed"
  by (simp add: phase_of_def)

lemma step_to_analyzing:
  "record_step (initialResult s) ((initialResult s)\<lparr>progressMessage := Some analyzing_message\<rparr>)"
  by (simp add: record_step_def)

lemma step_to_formatting:
  "record_step ((initialResult s)\<lparr>progressMessage := Some analyzing_message\<rparr>)
     ((initialResult s)\<lparr>progressMessage := Some formatting_message\<rparr>)"
  by (simp add: record_step_def)

lemma step_analyzing_to_error:
  "record_step ((initialResult s)\<lparr>progressMessage := Some analyzing_message\<rparr>)
     ((initialResult s)\<lparr>status := Error, error := e, progressMessage := None\<rparr>)"
  by (simp add: record_step_def)

lemma step_formatting_to_error:
  "record_step ((initialResult s)\<lparr>progressMessage := Some formatting_message\<rparr>)
     ((initialResult s)\<lparr>status := Error, error := e, progressMessage := None\<rparr>)"
  by (simp add: record_step_def)

lemma step_formatting_to_done:
  "record_step ((initialResult s)\<lparr>progressMessage := Some formatting_message\<rparr>)
     ((initialResult s)\<lparr>status := Done, data := d, progressMessage := None\<rparr>)"
  by (simp add: record_step_def)

lemmas record_steps = step_to_analyzing step_to_formatting step_analyzing_to_error
  step_formatting_to_error step_formatting_to_done

lemma iteration_steps:
  assumes inv: "untouchedFrom sts m (results (state r))"
    and dist: "distinct (map sd_id sts)" and m: "m < length sts"
  shows "successively (list_all2 record_step)
           (results (state r) # snapshots (newEvents ai clk commonData m (sts ! m) r))"
    and "last (snapshots (newEvents ai clk commonData m (sts ! m) r))
           = resultsAfter ai clk commonData (sts ! m) r"
    and "untouchedFrom sts (Suc m) (resultsAfter ai clk commonData (sts ! m) r)"
proof -
  let ?rs = "results (state r)"
  let ?sid = "sd_id (sts ! m)"
  let ?x0 = "initialResult (sts ! m)"
  have ids: "map studentId ?rs = map sd_id sts"
    using inv by (simp add: untouchedFrom_def)
  have len: "length ?rs = length sts"
    using ids by (rule length_of_map_eq)
  have x0: "?rs ! m = ?x0"
    using inv m by (simp add: untouchedFrom_def)
  have a: "markProgress ?sid analyzing_message ?rs
             = ?rs[m := ?x0\<lparr>progressMessage := Some analyzing_message\<rparr>]"
    using markProgress_one [OF ids dist m] x0 by simp
  have ida: "map studentId (?rs[m := ?x0\<lparr>progressMessage := Some analyzing_message\<rparr>])
               = map sd_id sts"
    using ids a by (metis markProgress_ids)
  have f: "markProgress ?sid formatting_message
             (?rs[m := ?x0\<lparr>progressMessage := Some analyzing_message\<rparr>])
             = ?rs[m := ?x0\<lparr>progressMessage := Some formatting_message\<rparr>]"
    using markProgress_one [OF ida dist m] m len by simp
  have idf: "map studentId (?rs[m := ?x0\<lparr>progressMessage := Some formatting_message\<rparr>])
               = map sd_id sts"
    using ida f by (metis markProgress_ids)
  have ea: "markError ?sid msg (?rs[m := ?x0\<lparr>progressMessage := Some analyzing_message\<rparr>])
             = ?rs[m := ?x0\<lparr>status := Error, error := Some msg, progressMessage := None\<rparr>]" for msg
    using markError_one [OF ida dist m] m len by simp
  have ef: "markError ?sid msg (?rs[m := ?x0\<lparr>progressMessage := Some formatting_message\<rparr>])
             = ?rs[m := ?x0\<lparr>status := Error, error := Some msg, progressMessage := None\<rparr>]" for msg
    using markError_one [OF idf dist m] m len by simp
  have df: "markDone ?sid d (?rs[m := ?x0\<lparr>progressMessage := Some formatting_message\<rparr>])
             = ?rs[m := ?x0\<lparr>status := Done, data := Some d, progressMessage := None\<rparr>]" for d
    using markDone_one [OF idf dist m] m len by simp
  have first: "list_all2 record_step ?rs (?rs[m := ?x0\<lparr>progressMessage := Some analyzing_message\<rparr>])"
    using step_first_update [of m ?rs] m len x0 by (simp add: record_steps)
  have ml: "m < length ?rs" using m len by simp
  show "successively (list_all2 record_step)
           (?rs # snapshots (newEvents ai clk commonData m (sts ! m) r))"
    using first ml
    by (simp add: snapshots_newEvents resultsAfter_def Let_def a f ea ef df step_update record_steps
        split: sum.splits)
  show "last (snapshots (newEvents ai clk commonData m (sts ! m) r))
           = resultsAfter ai clk commonData (sts ! m) r"
    by (simp add: snapshots_newEvents resultsAfter_def Let_def split: sum.splits)
  show "untouchedFrom sts (Suc m) (resultsAfter ai clk commonData (sts ! m) r)"
    unfolding untouchedFrom_def
  proof (intro conjI allI impI)
    show "map studentId (resultsAfter ai clk commonData (sts ! m) r) = map sd_id sts"
      using ids by simp
  next
    fix j assume j: "Suc m \<le> j \<and> j < length sts"
    then have "studentId (?rs ! j) \<noteq> ?sid"
      using own_index [OF ids dist m, of j] by simp
    then have "resultsAfter ai clk commonData (sts ! m) r ! j = ?rs ! j"
      using resultsAfter_other [of j r "sts ! m" ai clk commonData] j len by simp
    then show "resultsAfter ai clk commonData (sts ! m) r ! j = initialResult (sts ! j)"
      using inv j by (simp add: untouchedFrom_def)
  qed
qed

lemma snapshots_newEvents_nonempty:
  "snapshots (newEvents ai clk commonData i student r) \<noteq> []"
  by (simp add: snapshots_newEvents Let_def)

lemma iter_steps:
  assumes dist: "distinct (map sd_id sts)"
    and r: "untouchedFrom sts 0 (results (state r))" "snapshots (log r) \<noteq> []"
      "last (snapshots (log r)) = results (state r)"
      "successively (list_all2 record_step) (snapshots (log r))"
  shows "m \<le> length sts \<Longrightarrow>
     successively (list_all2 record_step) (snapshots (log (iter ai clk commonData sts m r)))
     \<and> last (snapshots (log (iter ai clk commonData sts m r)))
         = results (state (iter ai clk commonData sts m r))
     \<and> untouchedFrom sts m (results (state (iter ai clk commonData sts m r)))
     \<and> snapshots (log (iter ai clk commonData sts m r)) \<noteq> []"
proof (induction m)
  case 0
  then show ?case using r by simp
next
  case (Suc m)
  let ?r = "iter ai clk commonData sts m r"
  let ?new = "snapshots (newEvents ai clk commonData m (sts ! m) ?r)"
  have m: "m < length sts" using Suc.prems by simp
  have ih: "successively (list_all2 record_step) (snapshots (log ?r))"
    "last (snapshots (log ?r)) = results (state ?r)"
    "untouchedFrom sts m (results (state ?r))" "snapshots (log ?r) \<noteq> []"
    using Suc.IH m by simp_all
  note it = iteration_steps [OF ih(3) dist m, of ai clk commonData]
  have ne: "?new \<noteq> []" by (rule snapshots_newEvents_nonempty)
  have "successively (list_all2 record_step) ?new
        \<and> list_all2 record_step (results (state ?r)) (hd ?new)"
    using it(1) ne by (cases ?new) simp_all
  then have "successively (list_all2 record_step) (snapshots (log ?r) @ ?new)"
    using ih(1,2) by (simp add: successively_append_iff)
  moreover have "last (snapshots (log ?r) @ ?new) = resultsAfter ai clk commonData (sts ! m) ?r"
    using it(2) ne by simp
  ultimately show ?case
    using it(3) ne by (simp add: processStudent_log processStudent_state withResults_def)
qed

lemma in_snapshots:
  "x \<in> set (snapshots es) \<longleftrightarrow> (\<exists>s. Update SetResults s \<in> set es \<and> x = results s)"
proof (induction es)
  case Nil
  then show ?case by (simp add: snapshots_def)
next
  case (Cons e es)
  have "snapshots (e # es) = snapshots [e] @ snapshots es"
    using snapshots_append [of "[e]" es] by simp
  moreover have "x \<in> set (snapshots [e]) \<longleftrightarrow> (\<exists>s. e = Update SetResults s \<and> x = results s)"
    by (cases e rule: resultsOf.cases) (auto simp: snapshots_def)
  ultimately show ?case using Cons by auto
qed

lemma terminal_step_is_identity:
  assumes "record_step a b" and "status a \<noteq> Loading"
  shows "b = a"
proof (rule ccontr)
  assume "b \<noteq> a"
  then obtain p q where "phase_of a = Some p" and "forward p q"
    using assms(1) by (auto simp: record_step_def split: option.splits)
  moreover have "phase_of a = Some Completed \<or> phase_of a = Some Failed"
    using assms(2) by (cases "status a") (simp_all add: phase_of_def)
  ultimately show False by auto
qed

text \<open>The last write of an iteration leaves the collection that the iteration ends with.\<close>

lemma newEvents_last_write:
  "Update SetResults (withResults r i (resultsAfter ai clk commonData student r))
     \<in> set (newEvents ai clk commonData i student r)"
  by (simp add: newEvents_def resultsAfter_def Let_def split: sum.splits)

lemma handler_last_write:
  assumes "k < length (students formData)"
  shows "Update SetResults
           (withResults (iter ai clk (commonDataOf formData) (students formData) k
                           (startRun formData s0 w0)) k
              (resultsAfter ai clk (commonDataOf formData) (students formData ! k)
                 (iter ai clk (commonDataOf formData) (students formData) k
                    (startRun formData s0 w0))))
         \<in> set (log (handleGenerateReport ai clk formData s0 w0))"
  using assms newEvents_last_write [of "iter ai clk (commonDataOf formData) (students formData) k
        (startRun formData s0 w0)" k ai clk "commonDataOf formData" "students formData ! k"]
  by (auto simp: handler_log)

lemma results_withResults [simp]: "results (withResults r i rs) = rs"
  by (simp add: withResults_def)

subsection \<open>Concrete runs\<close>

lemmas iter_eval = results_of_handler processStudent_state processStudent_world withResults_def
  resultsAfter_def gradeOutcome_def formatOutcome_def reportDataOf_def startRun_def startState_def
  commonDataOf_def
  gradeSolutionAndGenerateFeedback_def formatReportToHtml_def generateContent_def
  markProgress_def markError_def markDone_def initialResult_def message_of_def Let_def

lemmas log_eval = handleGenerateReport_iter processStudent_log newEvents_def iter_eval

lemmas snapshot_eval = snapshots_def map_filter_def

lemmas string_defs = stripFences_def startsWith_def endsWith_def substring_def substringFrom_def
  trim_def isWhiteSpace_def js_def

lemmas input_defs = counting_service_def tally_clock_def student_A_def student_B_def
  idle_state_def one_file_def

lemma run_AB_results:
  "results (state run_AB) =
     [\<lparr>status = Done,
       data = Some \<lparr>rd_htmlContent = js ''report'', rd_studentEmail = js ''a@x'',
                    rd_studentName = js ''A'', rd_examInfo = js ''exam'',
                    rd_generationDate = js ''t''\<rparr>,
       error = None, studentName = js ''A'', studentId = js ''a'', progressMessage = None\<rparr>,
      \<lparr>status = Error, data = None, error = Some required_files_message,
       studentName = js ''B'', studentId = js ''b'', progressMessage = None\<rparr>]"
  by (simp add: run_AB_def form_AB_def iter_eval input_defs string_defs)


lemma run_dup_snapshots:
  "map (map (\<lambda>r. (status r, progressMessage r))) (snapshots (log run_dup)) =
     [ [(Loading, Some waiting_message), (Loading, Some waiting_message)],
      [(Loading, Some analyzing_message), (Loading, Some analyzing_message)],
      [(Loading, Some formatting_message), (Loading, Some formatting_message)],
      [(Done, None), (Done, None)],
      [(Done, Some analyzing_message), (Done, Some analyzing_message)],
      [(Error, None), (Error, None)]]"
  by (simp add: run_dup_def form_dup_def student_A2_def log_eval snapshot_eval input_defs
      string_defs)

lemma distinct_AB: "distinct (map sd_id (students form_AB))"
  by (simp add: form_AB_def student_A_def student_B_def js_def)

lemma later_ids_A:
  "\<forall>j. 0 < j \<and> j < length (students form_A) \<longrightarrow>
     sd_id (students form_A ! j) \<noteq> sd_id (students form_A ! 0)"
  by (auto simp: form_A_def)


lemma later_ids_AB:
  "\<forall>j. 1 < j \<and> j < length (students form_AB) \<longrightarrow>
     sd_id (students form_AB ! j) \<noteq> sd_id (students form_AB ! 1)"
  by (auto simp: form_AB_def)

subsection \<open>One terminal record per student\<close>

text \<open>
  Claim C2. After the handler has run, the results collection holds one record per roster
  entry, with the ids and names of the roster in roster order, every record is done or
  error with no progress note left, and every value the collection took during the run
  had exactly the roster's ids, in order: no record is deleted or duplicated.
\<close>

theorem handleGenerateReport_one_terminal_record_each:
  "map studentId (results (state (handleGenerateReport ai clk formData s0 w0)))
     = map sd_id (students formData)
   \<and> map studentName (results (state (handleGenerateReport ai clk formData s0 w0)))
     = map sd_name (students formData)
   \<and> (\<forall>r \<in> set (results (state (handleGenerateReport ai clk formData s0 w0))).
        (status r = Done \<or> status r = Error) \<and> progressMessage r = None)
   \<and> (\<forall>s. Update SetResults s \<in> set (log (handleGenerateReport ai clk formData s0 w0)) \<longrightarrow>
        map studentId (results s) = map sd_id (students formData))"
proof -
  let ?n = "length (students formData)"
  let ?r0 = "startRun formData s0 w0 :: 'a run"
  let ?it = "\<lambda>m. iter ai clk (commonDataOf formData) (students formData) m ?r0"
  have res: "results (state (handleGenerateReport ai clk formData s0 w0)) = results (state (?it ?n))"
    by (simp add: handleGenerateReport_iter)
  have len: "length (results (state (?it ?n))) = ?n"
    by (simp add: startRun_def startState_def)
  have fin: "terminal x" if "x \<in> set (results (state (?it ?n)))" for x
  proof -
    from that obtain j where "j < length (results (state (?it ?n)))"
      and "x = results (state (?it ?n)) ! j"
      unfolding in_set_conv_nth by blast
    with len have "j < ?n" and "x = results (state (?it ?n)) ! j"
      by simp_all
    then show ?thesis
      using iter_terminal [of ?r0 "students formData" ?n j ai clk "commonDataOf formData"]
      by simp
  qed
  have snap: "map studentId (results s) = map sd_id (students formData)"
    if "Update SetResults s \<in> set (log (handleGenerateReport ai clk formData s0 w0))" for s
    using that by (rule handler_snapshot_ids)
  show ?thesis using res fin snap by (simp add: terminal_def)
qed


theorem handleGenerateReport_one_terminal_record_each_witness:
  "map studentId (results (state run_AB)) = [js ''a'', js ''b'']
   \<and> map status (results (state run_AB)) = [Done, Error]
   \<and> map progressMessage (results (state run_AB)) = [None, None]"
  using handleGenerateReport_one_terminal_record_each
      [of counting_service tally_clock form_AB idle_state 0]
    run_AB_results
  by (simp add: run_AB_def)

subsection \<open>A failed grading stage\<close>






subsection \<open>Missing documents\<close>

text \<open>
  Claim C3, as amended. For a student without solution documents, or when there are no
  exam materials, gradeSolutionAndGenerateFeedback fails before any request is built: it
  throws a plain \<^verbatim>\<open>Error\<close> whose message is the fixed sentence of line 76
  (\<^const>\<open>required_files_message\<close>; the code has no error class of its own and no reason
  \<open>missing required input\<close>), leaves the service untouched and sends no request. In the run,
  the grading stage of that student has this outcome, no request is sent in the student's
  iteration, formatReportToHtml is not invoked, and the record is set to error with that
  message. That write always happens; the record is still in error with that message in
  the final collection provided that no later roster entry carries the same id.
\<close>

theorem missing_documents_fail_before_any_call:
  assumes "k < length (students formData)"
    and "sd_solutionFiles (students formData ! k) = [] \<or> examMaterials formData = []"
  shows "gradeSolutionAndGenerateFeedback ai (commonDataOf formData)
           \<lparr>st_name = sd_name (students formData ! k),
            st_solutionFiles = sd_solutionFiles (students formData ! k),
            st_reportTemplate = sd_reportTemplate (students formData ! k)\<rparr> w
           = (Inl (ErrorObj required_files_message), w, [])
    \<and> GradeOut k (Inl (ErrorObj required_files_message))
         \<in> set (log (handleGenerateReport ai clk formData s0 w0))
    \<and> (\<forall>q. Sent k q \<notin> set (log (handleGenerateReport ai clk formData s0 w0)))
    \<and> Format k \<notin> set (log (handleGenerateReport ai clk formData s0 w0))
    \<and> ((\<forall>j. k < j \<and> j < length (students formData) \<longrightarrow>
            sd_id (students formData ! j) \<noteq> sd_id (students formData ! k)) \<longrightarrow>
          status (results (state (handleGenerateReport ai clk formData s0 w0)) ! k) = Error
          \<and> error (results (state (handleGenerateReport ai clk formData s0 w0)) ! k)
              = Some required_files_message
          \<and> progressMessage (results (state (handleGenerateReport ai clk formData s0 w0)) ! k)
              = None)
    \<and> (\<exists>s. Update SetResults s \<in> set (log (handleGenerateReport ai clk formData s0 w0))
           \<and> status (results s ! k) = Error \<and> error (results s ! k) = Some required_files_message
           \<and> progressMessage (results s ! k) = None)"
proof -
  let ?H = "handleGenerateReport ai clk formData s0 w0"
  let ?cd = "commonDataOf formData"
  let ?sts = "students formData"
  let ?rk = "iter ai clk ?cd ?sts k (startRun formData s0 w0)"
  have call: "gradeSolutionAndGenerateFeedback ai ?cd
           \<lparr>st_name = sd_name (?sts ! k), st_solutionFiles = sd_solutionFiles (?sts ! k),
            st_reportTemplate = sd_reportTemplate (?sts ! k)\<rparr> v
           = (Inl (ErrorObj required_files_message), v, [])" for v
    using assms(2) by (auto simp: gradeSolutionAndGenerateFeedback_def commonDataOf_def)
  have g: "gradeOutcome ai clk ?cd (?sts ! k) ?rk
             = (Inl (ErrorObj required_files_message), snd (clk (world ?rk)), [])"
    by (simp add: gradeOutcome_def call)
  have out: "GradeOut k (Inl (ErrorObj required_files_message)) \<in> set (log ?H)"
    using assms(1) g by (simp add: tagged_in_handler GradeOut_in_newEvents)
  have ns: "Sent k q \<notin> set (log ?H)" for q
    using g by (simp add: tagged_in_handler Sent_in_newEvents)
  have nf: "Format k \<notin> set (log ?H)"
    using g by (simp add: tagged_in_handler Format_in_newEvents)
  have own: "studentId (results (state ?rk) ! k) = sd_id (?sts ! k)"
    by (rule iter_own_id(1) [OF assms(1)])
  have inb: "k < length (results (state ?rk))"
    by (rule iter_own_id(2) [OF assms(1)])
  have gl: "fst (gradeOutcome ai clk ?cd (?sts ! k) ?rk) = Inl (ErrorObj required_files_message)"
    by (simp add: g)
  have rec: "results (state ?H) ! k =
               (results (state ?rk) ! k)\<lparr>status := Error, error := Some required_files_message,
                                          progressMessage := None\<rparr>"
    if "\<forall>j. k < j \<and> j < length ?sts \<longrightarrow> sd_id (?sts ! j) \<noteq> sd_id (?sts ! k)"
    using handler_record [OF assms(1) that, where ai = ai and clk = clk and ?s0.0 = s0
        and ?w0.0 = w0]
      resultsAfter_grade_failed [OF inb own gl]
    by (simp add: message_of_def)
  have wr: "\<exists>s. Update SetResults s \<in> set (log ?H)
           \<and> status (results s ! k) = Error \<and> error (results s ! k) = Some required_files_message
           \<and> progressMessage (results s ! k) = None"
    using handler_last_write [OF assms(1), of ai clk s0 w0]
      resultsAfter_grade_failed [OF inb own gl]
    by (intro exI [of _ "withResults ?rk k (resultsAfter ai clk ?cd (?sts ! k) ?rk)"])
      (simp add: message_of_def)
  show ?thesis
    using call out ns nf rec wr by simp
qed


theorem missing_documents_fail_before_any_call_witness:
  "(1::nat) < length (students form_AB)
   \<and> sd_solutionFiles (students form_AB ! 1) = []
   \<and> GradeOut 1 (Inl (ErrorObj required_files_message)) \<in> set (log run_AB)
   \<and> Format 1 \<notin> set (log run_AB)
   \<and> status (results (state run_AB) ! 1) = Error
   \<and> error (results (state run_AB) ! 1) = Some required_files_message"
proof -
  have l: "(1::nat) < length (students form_AB)"
    by (simp add: form_AB_def)
  have e: "sd_solutionFiles (students form_AB ! 1) = [] \<or> examMaterials form_AB = []"
    by (simp add: form_AB_def student_B_def)
  have e': "sd_solutionFiles (students form_AB ! 1) = []"
    by (simp add: form_AB_def student_B_def)
  note T = missing_documents_fail_before_any_call [OF l e, where ai = counting_service
        and clk = tally_clock and ?s0.0 = idle_state and ?w0.0 = 0 and w = 0]
  have a: "GradeOut 1 (Inl (ErrorObj required_files_message)) \<in> set (log run_AB)"
    using T unfolding run_AB_def by blast
  have b: "Format 1 \<notin> set (log run_AB)"
    using T unfolding run_AB_def by blast
  have c: "status (results (state run_AB) ! 1) = Error
           \<and> error (results (state run_AB) ! 1) = Some required_files_message"
    using T later_ids_AB unfolding run_AB_def by blast
  show ?thesis
    using l e' a b c by simp
qed

text \<open>
  Claim C3 as stated fails. On the roster of two entries with the id \<open>a\<close>, the first
  without a solution document and the second with one, the grading stage of the first
  entry fails with the message of line 76, which is not \<open>missing required input\<close>; the
  iteration of the second entry then updates both records, and the record of the student
  without documents ends done.
\<close>

theorem missing_documents_record_done_after_later_duplicate:
  "sd_solutionFiles (students form_dup_later ! 0) = []
   \<and> GradeOut 0 (Inl (ErrorObj required_files_message)) \<in> set (log run_dup_later)
   \<and> required_files_message \<noteq> js ''missing required input''
   \<and> map status (results (state run_dup_later)) = [Done, Done]"
proof -
  have a: "sd_solutionFiles (students form_dup_later ! 0) = []"
    by (simp add: form_dup_later_def student_A2_def)
  have b: "GradeOut 0 (Inl (ErrorObj required_files_message)) \<in> set (log run_dup_later)"
    by (simp add: run_dup_later_def tagged_in_handler GradeOut_in_newEvents gradeOutcome_def
        startRun_def gradeSolutionAndGenerateFeedback_def commonDataOf_def form_dup_later_def
        student_A2_def Let_def)
  have c: "required_files_message \<noteq> js ''missing required input''"
    by (simp add: required_files_message_def js_def)
  have d: "map status (results (state run_dup_later)) = [Done, Done]"
    by (simp add: run_dup_later_def form_dup_later_def student_A2_def iter_eval input_defs
        string_defs)
  show ?thesis
    using a b c d by simp
qed

subsection \<open>The progress counter\<close>




subsection \<open>The generation timestamp\<close>

text \<open>
  Claim C5, as amended. On the success path of the student at index \<open>k\<close>, the record is
  set to done with no progress note (and is still so in the final collection when no later
  roster entry carries the same id), and its data holds the rendered content returned by
  formatReportToHtml, the student's name and email, the shared exam description and the
  generation timestamp. The clock is read once in the student's iteration, at its start,
  before any client call of that student; the reading is the value that is passed to
  formatReportToHtml and the value that is stored. It is not read again at the transition
  to done. (The report text that gradeSolutionAndGenerateFeedback returns is
  \<^verbatim>\<open>response.text\<close> as it is, so it may be \<^verbatim>\<open>undefined\<close>; the prompt then holds the word.)
\<close>

theorem done_record_carries_stamp_read_before_grading:
  assumes "Stamp k d \<in> set (log (handleGenerateReport ai clk formData s0 w0))"
    and "GradeOut k (Inr rawReport) \<in> set (log (handleGenerateReport ai clk formData s0 w0))"
    and "FormatOut k (Inr htmlReport) \<in> set (log (handleGenerateReport ai clk formData s0 w0))"
  shows "clockReadings k (log (handleGenerateReport ai clk formData s0 w0)) = [d]
    \<and> (\<exists>pre post. log (handleGenerateReport ai clk formData s0 w0) = pre @ Stamp k d # post
            \<and> (\<forall>e \<in> set pre. tag e \<noteq> Some k)
            \<and> Grade k \<in> set post \<and> FormatOut k (Inr htmlReport) \<in> set post)
    \<and> Sent k \<lparr>req_model = model formData,
               req_prompt = FormatPrompt d (sd_name (students formData ! k)) (examInfo formData)
                              (interpolate rawReport),
               req_inlineData = [], req_googleSearch = False\<rparr>
         \<in> set (log (handleGenerateReport ai clk formData s0 w0))
    \<and> ((\<forall>j. k < j \<and> j < length (students formData) \<longrightarrow>
            sd_id (students formData ! j) \<noteq> sd_id (students formData ! k)) \<longrightarrow>
          status (results (state (handleGenerateReport ai clk formData s0 w0)) ! k) = Done
          \<and> data (results (state (handleGenerateReport ai clk formData s0 w0)) ! k)
              = Some \<lparr>rd_htmlContent = htmlReport,
                      rd_studentEmail = sd_email (students formData ! k),
                      rd_studentName = sd_name (students formData ! k),
                      rd_examInfo = examInfo formData, rd_generationDate = d\<rparr>
          \<and> progressMessage (results (state (handleGenerateReport ai clk formData s0 w0)) ! k)
              = None)
    \<and> (\<exists>s. Update SetResults s \<in> set (log (handleGenerateReport ai clk formData s0 w0))
           \<and> status (results s ! k) = Done
           \<and> data (results s ! k)
               = Some \<lparr>rd_htmlContent = htmlReport,
                       rd_studentEmail = sd_email (students formData ! k),
                       rd_studentName = sd_name (students formData ! k),
                       rd_examInfo = examInfo formData, rd_generationDate = d\<rparr>
           \<and> progressMessage (results s ! k) = None)"
proof -
  let ?H = "handleGenerateReport ai clk formData s0 w0"
  let ?n = "length (students formData)"
  let ?cd = "commonDataOf formData"
  let ?sts = "students formData"
  let ?r0 = "startRun formData s0 w0 :: 'a run"
  let ?it = "\<lambda>m. iter ai clk ?cd ?sts m ?r0"
  let ?E = "\<lambda>k. newEvents ai clk ?cd k (?sts ! k) (?it k)"
  let ?rk = "?it k"
  have k: "k < ?n" and d: "d = fst (clk (world ?rk))"
    using assms(1) by (simp_all add: tagged_in_handler Stamp_in_newEvents)
  have g: "fst (gradeOutcome ai clk ?cd (?sts ! k) ?rk) = Inr rawReport"
    using assms(2) by (simp add: tagged_in_handler GradeOut_in_newEvents)
  have f: "fst (formatOutcome ai clk ?cd (?sts ! k) rawReport ?rk) = Inr htmlReport"
    using assms(3) g by (simp add: tagged_in_handler FormatOut_in_newEvents)
  have order: "\<exists>pre post. log ?H = pre @ Stamp k d # post \<and> (\<forall>e \<in> set pre. tag e \<noteq> Some k)
            \<and> Grade k \<in> set post \<and> FormatOut k (Inr htmlReport) \<in> set post"
  proof -
    obtain u rest where rest: "?E k = Update SetProgress u # Stamp k d # rest" "Grade k \<in> set rest"
      using newEvents_stamp [of ai clk ?cd k "?sts ! k" ?rk] d by blast
    let ?pre = "log ?r0 @ concat (map ?E [0..<k]) @ [Update SetProgress u]"
    let ?fin = "Update SetIsLoading ((state (?it ?n))\<lparr>isLoading := False\<rparr>)"
    let ?post = "rest @ concat (map ?E [Suc k..<?n]) @ [?fin]"
    have split: "[0..<?n] = [0..<k] @ k # [Suc k..<?n]"
      using k by (metis less_imp_le_nat upt_add_eq_append upt_conv_Cons le0 le_add_diff_inverse)
    have "log ?H = log ?r0 @ concat (map ?E [0..<?n]) @ [?fin]"
      by (rule handler_log)
    also have "concat (map ?E [0..<?n]) = concat (map ?E [0..<k]) @ ?E k @ concat (map ?E [Suc k..<?n])"
      by (subst split) simp
    finally have l: "log ?H = ?pre @ Stamp k d # ?post"
      using rest(1) by simp
    have pre: "tag e \<noteq> Some k" if "e \<in> set ?pre" for e
    proof
      assume t: "tag e = Some k"
      then have "e \<notin> set (log ?r0)" using startRun_untagged [of formData s0 w0] by auto
      moreover have "e \<noteq> Update SetProgress u" using t by auto
      ultimately have "e \<in> set (concat (map ?E [0..<k]))" using that by auto
      then have "k < k" using concat_tags_below [where f = ?it] t by blast
      then show False by simp
    qed
    have fo: "FormatOut k (Inr htmlReport) \<in> set ?post"
    proof -
      have "FormatOut k (Inr htmlReport) \<in> set (?pre @ Stamp k d # ?post)"
        using assms(3) l by simp
      moreover have "FormatOut k (Inr htmlReport) \<notin> set ?pre"
        using pre [of "FormatOut k (Inr htmlReport)"] by auto
      ultimately show ?thesis by auto
    qed
    have gr: "Grade k \<in> set ?post" using rest(2) by simp
    show ?thesis using l pre fo gr by blast
  qed
  have sent: "Sent k \<lparr>req_model = model formData,
               req_prompt = FormatPrompt d (sd_name (?sts ! k)) (examInfo formData)
                              (interpolate rawReport),
               req_inlineData = [], req_googleSearch = False\<rparr> \<in> set (log ?H)"
    using k g d
    by (simp add: tagged_in_handler Sent_in_newEvents formatOutcome_sent commonDataOf_def)
  have own: "studentId (results (state ?rk) ! k) = sd_id (?sts ! k)"
    by (rule iter_own_id(1) [OF k])
  have inb: "k < length (results (state ?rk))"
    by (rule iter_own_id(2) [OF k])
  have rec: "results (state ?H) ! k =
               (results (state ?rk) ! k)\<lparr>status := Done,
                  data := Some (reportDataOf ?cd (?sts ! k) htmlReport d), progressMessage := None\<rparr>"
    if "\<forall>j. k < j \<and> j < ?n \<longrightarrow> sd_id (?sts ! j) \<noteq> sd_id (?sts ! k)"
    using handler_record [OF k that, where ai = ai and clk = clk and ?s0.0 = s0 and ?w0.0 = w0]
      resultsAfter_done [OF inb own g f] d
    by simp
  have wr: "\<exists>s. Update SetResults s \<in> set (log ?H)
           \<and> status (results s ! k) = Done
           \<and> data (results s ! k) = Some (reportDataOf ?cd (?sts ! k) htmlReport d)
           \<and> progressMessage (results s ! k) = None"
    using handler_last_write [OF k, of ai clk s0 w0] resultsAfter_done [OF inb own g f] d
    by (intro exI [of _ "withResults ?rk k (resultsAfter ai clk ?cd (?sts ! k) ?rk)"]) simp
  have once: "clockReadings k (log ?H) = [d]"
    using k d by (simp add: clockReadings_handler)
  show ?thesis
    using once order sent rec wr by (simp add: reportDataOf_def commonDataOf_def)
qed

theorem done_record_carries_stamp_read_before_grading_witness:
  "Stamp 0 (js ''t'') \<in> set (log run_A)
   \<and> GradeOut 0 (Inr (Some (js ''report''))) \<in> set (log run_A)
   \<and> FormatOut 0 (Inr (js ''report'')) \<in> set (log run_A)
   \<and> status (results (state run_A) ! 0) = Done
   \<and> data (results (state run_A) ! 0)
       = Some \<lparr>rd_htmlContent = js ''report'', rd_studentEmail = js ''a@x'',
               rd_studentName = js ''A'', rd_examInfo = js ''exam'',
               rd_generationDate = js ''t''\<rparr>
   \<and> progressMessage (results (state run_A) ! 0) = None"
proof -
  have h: "Stamp 0 (js ''t'') \<in> set (log run_A)"
    "GradeOut 0 (Inr (Some (js ''report''))) \<in> set (log run_A)"
    "FormatOut 0 (Inr (js ''report'')) \<in> set (log run_A)"
    by (simp_all add: run_A_def form_A_def log_eval input_defs string_defs)
  note T = done_record_carries_stamp_read_before_grading
    [OF h [unfolded run_A_def], folded run_A_def]
  have "status (results (state run_A) ! 0) = Done
     \<and> data (results (state run_A) ! 0)
       = Some \<lparr>rd_htmlContent = js ''report'', rd_studentEmail = sd_email (students form_A ! 0),
               rd_studentName = sd_name (students form_A ! 0),
               rd_examInfo = examInfo form_A, rd_generationDate = js ''t''\<rparr>
     \<and> progressMessage (results (state run_A) ! 0) = None"
    using T later_ids_A by blast
  then show ?thesis
    using h by (simp add: form_A_def student_A_def)
qed

text \<open>
  Claim C5 as stated fails. With a clock that shows the number of service calls made so
  far, the stored timestamp is the reading \<open>t\<close> taken before the grading call, whereas the clock
  reads \<open>tII\<close> once formatReportToHtml has returned and the record is set to done.
\<close>

theorem stamp_is_older_than_done_transition:
  "log run_A ! 5 = Stamp 0 (js ''t'')
   \<and> log run_A ! 7 = Grade 0
   \<and> log run_A ! 13 = FormatOut 0 (Inr (js ''report''))
   \<and> map_option rd_generationDate (data (results (state run_A) ! 0)) = Some (js ''t'')
   \<and> fst (tally_clock (world run_A)) = js ''tII''"
  by (simp add: run_A_def form_A_def log_eval input_defs string_defs)

subsection \<open>The transitions of a record\<close>

text \<open>
  Claim C6, as amended. For a roster with pairwise distinct ids, every write of the
  results collection leaves each record as it is or moves it along one arrow of
  Pending, Analyzing, Formatting, then Done or Failed; a record that is done or in error is
  never changed by a later write; the first value of the collection is the roster's pending
  records and the last one is the final collection. The updates select records by id and do
  not look at the record's state: nothing detects an update of a terminal record.
\<close>

theorem records_move_forward_only:
  assumes "distinct (map sd_id (students formData))"
  shows "successively (list_all2 record_step)
           (snapshots (log (handleGenerateReport ai clk formData s0 w0)))
    \<and> sorted_wrt (\<lambda>a b. \<forall>k < length (students formData). status (a ! k) \<noteq> Loading \<longrightarrow> b ! k = a ! k)
         (snapshots (log (handleGenerateReport ai clk formData s0 w0)))
    \<and> hd (snapshots (log (handleGenerateReport ai clk formData s0 w0)))
         = map initialResult (students formData)
    \<and> last (snapshots (log (handleGenerateReport ai clk formData s0 w0)))
         = results (state (handleGenerateReport ai clk formData s0 w0))"
proof -
  let ?H = "handleGenerateReport ai clk formData s0 w0"
  let ?sts = "students formData"
  let ?n = "length ?sts"
  let ?cd = "commonDataOf formData"
  let ?r0 = "startRun formData s0 w0 :: 'a run"
  let ?rn = "iter ai clk ?cd ?sts ?n ?r0"
  let ?T = "\<lambda>a b. \<forall>k < ?n. status (a ! k) \<noteq> Loading \<longrightarrow> b ! k = a ! k"
  have s0: "snapshots (log ?r0) = [map initialResult ?sts]"
    by (simp add: startRun_def startState_def snapshots_def map_filter_def)
  have r0: "results (state ?r0) = map initialResult ?sts"
    by (simp add: startRun_def startState_def)
  have u0: "untouchedFrom ?sts 0 (results (state ?r0))"
    by (simp add: r0 untouchedFrom_def initialResult_def comp_def)
  have sH: "snapshots (log ?H) = snapshots (log ?rn)"
    by (simp add: handleGenerateReport_iter snapshots_def map_filter_def)
  have all: "successively (list_all2 record_step) (snapshots (log ?rn))
     \<and> last (snapshots (log ?rn)) = results (state ?rn)
     \<and> untouchedFrom ?sts ?n (results (state ?rn)) \<and> snapshots (log ?rn) \<noteq> []"
    by (rule iter_steps [OF assms u0]) (simp_all add: s0 r0)
  have a: "successively (list_all2 record_step) (snapshots (log ?H))"
    using all sH by simp
  have len: "length x = ?n" if "x \<in> set (snapshots (log ?H))" for x
  proof -
    from that obtain s where s: "Update SetResults s \<in> set (log ?H)" "x = results s"
      unfolding in_snapshots by blast
    have "map studentId (results s) = map sd_id ?sts"
      using s(1) by (rule handler_snapshot_ids)
    then show ?thesis using s(2) length_of_map_eq by blast
  qed
  have sT: "successively ?T (snapshots (log ?H))"
  proof (rule successively_mono [OF a])
    fix x y
    assume x: "x \<in> set (snapshots (log ?H))" and "y \<in> set (snapshots (log ?H))"
      and xy: "list_all2 record_step x y"
    show "?T x y"
    proof (intro allI impI)
      fix k assume k: "k < ?n" and t: "status (x ! k) \<noteq> Loading"
      have "record_step (x ! k) (y ! k)"
        using xy k len [OF x] by (simp add: list_all2_nthD)
      then show "y ! k = x ! k"
        using t by (rule terminal_step_is_identity)
    qed
  qed
  have tr: "transp ?T"
    by (rule transpI) auto
  have b: "sorted_wrt ?T (snapshots (log ?H))"
    using successively_conv_sorted_wrt [OF tr] sT by blast
  have "snapshots (log ?rn) = snapshots (log ?r0)
          @ snapshots (concat (map (\<lambda>k. newEvents ai clk ?cd k (?sts ! k)
                                           (iter ai clk ?cd ?sts k ?r0)) [0..<?n]))"
    by (simp add: iter_log)
  then have c: "hd (snapshots (log ?H)) = map initialResult ?sts"
    using sH s0 by simp
  have d: "last (snapshots (log ?H)) = results (state ?H)"
    using all sH by (simp add: handleGenerateReport_iter)
  show ?thesis using a b c d by blast
qed

theorem records_move_forward_only_witness:
  "distinct (map sd_id (students form_AB))
   \<and> successively (list_all2 record_step) (snapshots (log run_AB))
   \<and> hd (snapshots (log run_AB)) = map initialResult (students form_AB)
   \<and> last (snapshots (log run_AB)) = results (state run_AB)"
  using records_move_forward_only [OF distinct_AB, of counting_service tally_clock idle_state 0]
    distinct_AB
  by (simp add: run_AB_def)

text \<open>
  Claim C6 as stated fails. When two roster entries carry the same id, the iteration of the
  second entry updates the records that the first one left done: they get a progress note
  again and end in error. Nothing fails: the handler returns with the loading flag off and
  no error set.
\<close>

theorem terminal_record_updated_again_silently:
  "map (map status) (snapshots (log run_dup)) =
     [ [Loading, Loading], [Loading, Loading], [Loading, Loading], [Done, Done], [Done, Done],
      [Error, Error]]
   \<and> map (map progressMessage) (snapshots (log run_dup)) =
     [ [Some waiting_message, Some waiting_message],
      [Some analyzing_message, Some analyzing_message],
      [Some formatting_message, Some formatting_message],
      [None, None],
      [Some analyzing_message, Some analyzing_message],
      [None, None]]
   \<and> map status (results (state run_dup)) = [Error, Error]
   \<and> map error (results (state run_dup))
       = [Some required_files_message, Some required_files_message]
   \<and> isLoading (state run_dup) = False
   \<and> app_error (state run_dup) = None"
proof -
  let ?S = "snapshots (log run_dup)"
  have a: "map (map status) ?S = map (map fst) (map (map (\<lambda>r. (status r, progressMessage r))) ?S)"
    by (simp add: comp_def)
  have b: "map (map progressMessage) ?S
             = map (map snd) (map (map (\<lambda>r. (status r, progressMessage r))) ?S)"
    by (simp add: comp_def)
  have c: "map status (results (state run_dup)) = [Error, Error]
   \<and> map error (results (state run_dup))
       = [Some required_files_message, Some required_files_message]
   \<and> isLoading (state run_dup) = False
   \<and> app_error (state run_dup) = None"
    by (simp add: run_dup_def form_dup_def student_A2_def log_eval input_defs string_defs)
  show ?thesis
    unfolding a b run_dup_snapshots using c by simp
qed

end
